theory Spec2Isabelle
  imports Main "HOL-Library.Word" "HOL-Library.Signed_Division"
begin

section \<open>The client pool of nebula-importer (pkg/client/clientpool.go)\<close>

text \<open>
  A shallow embedding of \<^verbatim>\<open>ClientPool\<close>: its constructor, \<^verbatim>\<open>exec\<close>,
  \<^verbatim>\<open>Close\<close> and the worker \<^verbatim>\<open>startWorker\<close> with the retry closure it hands to
  \<^verbatim>\<open>backoff.Retry\<close>.

  Conventions of the model.
  \<^item> Go's \<^verbatim>\<open>int\<close> is the 64-bit one, modelled as \<open>int\<close> with the wrap-around
    written out where a result can leave the range: the one product, concurrency
    times the number of addresses, goes through \<open>int64_wrap\<close>. The retry counter
    only counts down from the budget to zero, and the loop counters stay below their
    bounds. The byte total, an \<^verbatim>\<open>int64\<close> accumulator over \<^verbatim>\<open>int64(d.Bytes)\<close>, is a
    64-bit word, so its additions wrap as Go's do.
  \<^item> A pointer that may be \<^verbatim>\<open>nil\<close> is an \<open>option\<close>; a Go \<^verbatim>\<open>error\<close> value is an
    \<open>error option\<close>, \<open>None\<close> being \<^verbatim>\<open>nil\<close>.
  \<^item> Every \<^verbatim>\<open>fmt.Errorf\<close> call site is a constructor of \<open>error\<close> that keeps the
    arguments of the call instead of the formatted text.
  \<^item> The database is the environment. A session carries the replies it will give to
    its next \<^verbatim>\<open>Execute\<close> calls; when none is left the call does not return
    (\<open>Hung\<close>). Each reply also says what the clock shows after it: whether
    \<^verbatim>\<open>NextBackOff\<close> reports \<^verbatim>\<open>Stop\<close> (the elapsed-time cap), and the time since the
    request was dequeued.
  \<^item> Everything a function does to the outside (calls on a session, sends on a
    channel, log lines) is appended to a trace of events.
  \<^item> A run-time panic (nil dereference, index out of range, close of a closed
    channel, \<^verbatim>\<open>make\<close> with a negative or an oversized length) is the outcome
    \<open>Panicked\<close>.
\<close>

subsection \<open>Data\<close>

text \<open>
  \<^verbatim>\<open>nebula.ErrorCode\<close>: the source names three codes (two in the worker's switch, and
  \<^verbatim>\<open>IsSucceed\<close> compares with \<^verbatim>\<open>ErrorCode_SUCCEEDED\<close>); any other code is
  \<open>ErrorCode_OTHER\<close> with its number.
\<close>

datatype ErrorCode =
    ErrorCode_SUCCEEDED
  | ErrorCode_E_SYNTAX_ERROR
  | ErrorCode_E_SEMANTIC_ERROR
  | ErrorCode_OTHER int

text \<open>
  \<^verbatim>\<open>nebula.ResultSet\<close> as far as the pool reads it: the three getters are the
  fields. \<^verbatim>\<open>IsSucceed\<close> is the client library's test of the error code.
\<close>

record ResultSet =
  GetErrorCode :: ErrorCode
  GetErrorMsg :: string
  GetLatency :: int

definition IsSucceed :: "ResultSet \<Rightarrow> bool" where
  "IsSucceed r = (GetErrorCode r = ErrorCode_SUCCEEDED)"

datatype error =
    LibError string
  | Errorf_code_msg ErrorCode string
  | Errorf_exec_error int string error
  | Errorf_exec_resp int string ErrorCode string
  | Errorf_worker_error int string error
  | Errorf_worker_resp int string string ErrorCode
  | Errorf_invalid_address string
  | NumError string

text \<open>
  The constructors stand for: an error value returned by the client library or the
  transport (\<open>LibError\<close>); \<^verbatim>\<open>fmt.Errorf("%d:%s", errorCode, errorMsg)\<close>; the two
  errors of \<^verbatim>\<open>exec\<close> (\<^verbatim>\<open>"Client(%d) fails to execute commands (%s), ..."\<close>); the
  two errors of the worker (\<^verbatim>\<open>"Client %d fail to execute: %s, ..."\<close>);
  \<^verbatim>\<open>"Invalid address: %s"\<close>; and the error of \<^verbatim>\<open>strconv.Atoi\<close>.
\<close>

text \<open>
  Modelled from the spec: \<^verbatim>\<open>base.Data\<close>, \<^verbatim>\<open>base.ErrData\<close>, \<^verbatim>\<open>base.ClientRequest\<close>,
  \<^verbatim>\<open>base.Stats\<close>, \<^verbatim>\<open>base.NewSuccessStats\<close> and \<^verbatim>\<open>base.STAT_FILEDONE\<close> are declared in
  pkg/base, which is not among the sources. The spec gives a request as
  "statement: text, payload: ordered sequence of records-with-byte-size,
  result-channel", a success outcome as "server-latency, wall-clock-duration,
  record-count, byte-count", an error report as "error, original payload", and "a
  reserved sentinel value". The field names are the ones clientpool.go uses. A channel
  is known by a number.
\<close>

record Data =
  Record :: "string list"
  Bytes :: "64 word"

record ErrData =
  Error :: "error option"
  Data :: "Data list"

record ClientRequest =
  Stmt :: string
  Data :: "Data list"
  ErrCh :: nat

record Stats =
  Latency :: int
  ReqTime :: int
  BatchSize :: int
  ImportedBytes :: "64 word"

definition NewSuccessStats :: "int \<Rightarrow> int \<Rightarrow> int \<Rightarrow> 64 word \<Rightarrow> Stats" where
  "NewSuccessStats latency reqTime batchSize importedBytes =
     \<lparr>Latency = latency, ReqTime = reqTime, BatchSize = batchSize,
      ImportedBytes = importedBytes\<rparr>"

definition STAT_FILEDONE :: string where
  "STAT_FILEDONE = ''FILEDONE''"

text \<open>
  What one \<^verbatim>\<open>Execute\<close> call returns, \<^verbatim>\<open>(resp, err)\<close>, and what the clock shows
  after it.
\<close>

record reply =
  resp :: "ResultSet option"
  err :: "error option"
  backoff_stop :: bool
  since_ns :: int

record Session =
  replies :: "reply list"

datatype event =
    Execute_call int string
  | Log_error error
  | Send_ErrCh nat ErrData
  | Send_statsCh Stats
  | Release_call int
  | close_call int
  | pool_Close
  | GetSession_call "error option"

datatype 'a outcome = Returned 'a | Panicked | Hung

text \<open>
  A request queue, \<^verbatim>\<open>chan base.ClientRequest\<close>: its capacity, the requests waiting in
  it, and whether it has been closed.
\<close>

record chan =
  cap :: int
  buf :: "ClientRequest list"
  is_closed :: bool

text \<open>
  \<^verbatim>\<open>config.NebulaPostStart\<close> and \<^verbatim>\<open>config.NebulaPreStop\<close> (pkg/config, not among the
  sources) with the fields clientpool.go reads, each a \<^verbatim>\<open>*string\<close>.
\<close>

record NebulaPostStart =
  Commands :: "string option"
  AfterPeriod :: "string option"

record NebulaPreStop =
  Commands :: "string option"

text \<open>
  \<^verbatim>\<open>ClientPool\<close>. The stats channel, the connection pool and the logger are
  references to the outside: what the pool does to them is in the trace.
\<close>

record ClientPool =
  retry :: int
  concurrency :: int
  space :: string
  postStart :: "NebulaPostStart option"
  preStop :: "NebulaPreStop option"
  Sessions :: "Session option list"
  requestChs :: "chan option list"

subsection \<open>The retry closure of \<^verbatim>\<open>startWorker\<close>\<close>

text \<open>\<^verbatim>\<open>strings.Contains\<close>: some suffix of \<open>s\<close> starts with \<open>sub\<close>.\<close>

fun Contains :: "string \<Rightarrow> string \<Rightarrow> bool" where
  "Contains [] sub = (sub = [])"
| "Contains (c # cs) sub = (take (length sub) (c # cs) = sub \<or> Contains cs sub)"

text \<open>The switch on the error code: the two permanent codes fall through with the flag set.\<close>

fun isPermanentError :: "ErrorCode \<Rightarrow> bool" where
  "isPermanentError ErrorCode_E_SYNTAX_ERROR = True"
| "isPermanentError ErrorCode_E_SEMANTIC_ERROR = True"
| "isPermanentError _ = False"

text \<open>
  What the closure returns to \<^verbatim>\<open>backoff.Retry\<close>: \<^verbatim>\<open>nil\<close>, \<^verbatim>\<open>backoff.Permanent(e)\<close>,
  or a plain error. It panics when \<^verbatim>\<open>err == nil\<close> and \<^verbatim>\<open>resp\<close> is nil
  (\<^verbatim>\<open>resp.IsSucceed()\<close>).
\<close>

datatype op_result = Op_nil | Op_Permanent error | Op_error error | Op_panic

text \<open>
  The closure, lines 200-238, after its \<^verbatim>\<open>Execute\<close> call has returned \<open>a\<close>. It
  reads \<^verbatim>\<open>p.retry\<close> (\<open>p_retry\<close>) and reads and writes the captured variable
  \<^verbatim>\<open>retry\<close> (\<open>n\<close>); the new value of the variable is the second component.
\<close>

definition operation :: "int \<Rightarrow> int \<Rightarrow> reply \<Rightarrow> op_result \<times> int" where
  "operation p_retry n a =
     (case resp a of
        None \<Rightarrow>
          (case err a of
             None \<Rightarrow> (Op_panic, n)
           | Some e \<Rightarrow>
               if n \<le> 0 then (Op_Permanent e, n) else (Op_error e, n - 1))
      | Some r \<Rightarrow>
          if err a = None \<and> IsSucceed r then (Op_nil, n)
          else
            let errorCode = GetErrorCode r;
                errorMsg = GetErrorMsg r;
                retryErr = Errorf_code_msg errorCode errorMsg
            in if isPermanentError errorCode then (Op_Permanent retryErr, n)
               else if Contains errorMsg ''raft buffer is full'' then (Op_error retryErr, p_retry)
               else if n \<le> 0 then (Op_Permanent retryErr, n)
               else (Op_error retryErr, n - 1))"

text \<open>
  \<^verbatim>\<open>backoff.Retry(closure, exp)\<close> on a session that will answer with the given
  replies: call the closure; stop on \<^verbatim>\<open>nil\<close> and on a permanent error; on any other
  error stop when \<^verbatim>\<open>NextBackOff\<close> says \<^verbatim>\<open>Stop\<close>, and go round again otherwise. The
  result is the last \<^verbatim>\<open>(resp, err)\<close> the closure stored with the final value of
  \<^verbatim>\<open>retry\<close>, the number of \<^verbatim>\<open>Execute\<close> calls made, and the replies left.
\<close>

fun backoff_Retry :: "int \<Rightarrow> int \<Rightarrow> reply list \<Rightarrow> (reply \<times> int) outcome \<times> nat \<times> reply list" where
  "backoff_Retry p_retry n [] = (Hung, 1, [])"
| "backoff_Retry p_retry n (a # as) =
     (case operation p_retry n a of
        (Op_nil, n') \<Rightarrow> (Returned (a, n'), 1, as)
      | (Op_Permanent e, n') \<Rightarrow> (Returned (a, n'), 1, as)
      | (Op_error e, n') \<Rightarrow>
          if backoff_stop a then (Returned (a, n'), 1, as)
          else (case backoff_Retry p_retry n' as of (r, k, rest) \<Rightarrow> (r, Suc k, rest))
      | (Op_panic, n') \<Rightarrow> (Panicked, 1, as))"

subsection \<open>The worker\<close>

text \<open>The byte total of lines 255-258.\<close>

definition importedBytes :: "Data list \<Rightarrow> 64 word" where
  "importedBytes ds = foldl (\<lambda>acc d. acc + Bytes d) 0 ds"

text \<open>
  One round of the worker's loop for a request that is not the sentinel, lines
  181-260: the retry loop, then the report. \<open>i\<close> is the worker's index, \<open>s\<close> its
  session.
\<close>

definition handle_request ::
  "int \<Rightarrow> int \<Rightarrow> Session \<Rightarrow> ClientRequest \<Rightarrow> unit outcome \<times> Session \<times> event list" where
  "handle_request p_retry i s data =
     (case backoff_Retry p_retry p_retry (replies s) of
        (r, k, rest) \<Rightarrow>
          let calls = replicate k (Execute_call i (Stmt data));
              s' = s\<lparr>replies := rest\<rparr>
          in (case r of
               Hung \<Rightarrow> (Hung, s', calls)
             | Panicked \<Rightarrow> (Panicked, s', calls)
             | Returned (a, n') \<Rightarrow>
                 (case err a of
                    Some e \<Rightarrow>
                      (Returned (), s', calls @
                         [Send_ErrCh (ErrCh data)
                            \<lparr>Error = Some (Errorf_worker_error i (Stmt data) e),
                             Data = ClientRequest.Data data\<rparr>])
                  | None \<Rightarrow>
                      (case resp a of
                         None \<Rightarrow> (Panicked, s', calls)
                       | Some rs \<Rightarrow>
                           if \<not> IsSucceed rs then
                             (Returned (), s', calls @
                                [Send_ErrCh (ErrCh data)
                                   \<lparr>Error = Some (Errorf_worker_resp i (Stmt data)
                                              (GetErrorMsg rs) (GetErrorCode rs)),
                                    Data = ClientRequest.Data data\<rparr>])
                           else
                             (Returned (), s', calls @
                                [Send_statsCh
                                   (NewSuccessStats (GetLatency rs) (since_ns a sdiv 1000)
                                      (int (length (ClientRequest.Data data)))
                                      (importedBytes (ClientRequest.Data data)))])))))"

text \<open>
  Where a worker is when nothing more happens: it has returned (\<open>Stopped\<close>), it waits
  for a request on an empty queue that is not closed (\<open>Idle\<close>), it waits for an
  \<^verbatim>\<open>Execute\<close> call that does not return (\<open>Executing\<close>), or it has panicked.
\<close>

datatype worker_end = Stopped | Idle | Executing | Crashed

text \<open>
  The \<^verbatim>\<open>for\<close> loop of lines 170-261 on a queue holding \<open>q\<close>: a receive takes the
  head; on an empty queue it reports \<^verbatim>\<open>!ok\<close> if the queue is closed and blocks
  otherwise. The result is where the worker ends, its session, the requests it left in
  the queue, and the trace.
\<close>

fun worker_loop ::
  "int \<Rightarrow> int \<Rightarrow> Session \<Rightarrow> ClientRequest list \<Rightarrow> bool \<Rightarrow>
     worker_end \<times> Session \<times> ClientRequest list \<times> event list" where
  "worker_loop p_retry i s [] cl = (if cl then Stopped else Idle, s, [], [])"
| "worker_loop p_retry i s (data # q) cl =
     (if Stmt data = STAT_FILEDONE then
        (case worker_loop p_retry i s q cl of
           (w, s', q', tr) \<Rightarrow>
             (w, s', q', Send_ErrCh (ErrCh data) \<lparr>Error = None, Data = []\<rparr> # tr))
      else
        (case handle_request p_retry i s data of
           (Returned u, s', tr) \<Rightarrow>
             (case worker_loop p_retry i s' q cl of
                (w, s'', q', tr') \<Rightarrow> (w, s'', q', tr @ tr'))
         | (Panicked, s', tr) \<Rightarrow> (Crashed, s', q, tr)
         | (Hung, s', tr) \<Rightarrow> (Executing, s', q, tr)))"


text \<open>
  \<^verbatim>\<open>exec\<close>, lines 98-113. \<^verbatim>\<open>p.Sessions[i]\<close> panics out of range, and
  \<^verbatim>\<open>Execute\<close> on a nil session panics.
\<close>

definition exec ::
  "ClientPool \<Rightarrow> int \<Rightarrow> string \<Rightarrow> error option outcome \<times> ClientPool \<times> event list" where
  "exec p i stmt =
     (if length stmt = 0 then (Returned None, p, [])
      else if i < 0 \<or> int (length (Sessions p)) \<le> i then (Panicked, p, [])
      else
        (case Sessions p ! nat i of
           None \<Rightarrow> (Panicked, p, [])
         | Some s \<Rightarrow>
             (case replies s of
                [] \<Rightarrow> (Hung, p, [Execute_call i stmt])
              | a # as \<Rightarrow>
                  let p' = p\<lparr>Sessions := (Sessions p)[nat i := Some (s\<lparr>replies := as\<rparr>)]\<rparr>;
                      tr = [Execute_call i stmt]
                  in (case err a of
                       Some e \<Rightarrow> (Returned (Some (Errorf_exec_error i stmt e)), p', tr)
                     | None \<Rightarrow>
                         (case resp a of
                            None \<Rightarrow> (Panicked, p', tr)
                          | Some rs \<Rightarrow>
                              if \<not> IsSucceed rs then
                                (Returned (Some (Errorf_exec_resp i stmt
                                                   (GetErrorCode rs) (GetErrorMsg rs))), p', tr)
                              else (Returned None, p', tr))))))"


subsection \<open>\<^verbatim>\<open>Close\<close>\<close>

text \<open>\<^verbatim>\<open>getActiveConnIdx\<close>, lines 89-96: the first slot whose session is not nil, or -1.\<close>

fun getActiveConnIdx_from :: "Session option list \<Rightarrow> int \<Rightarrow> int" where
  "getActiveConnIdx_from [] i = - 1"
| "getActiveConnIdx_from (s # ss) i =
     (if s \<noteq> None then i else getActiveConnIdx_from ss (i + 1))"

definition getActiveConnIdx :: "ClientPool \<Rightarrow> int" where
  "getActiveConnIdx p = getActiveConnIdx_from (Sessions p) 0"

text \<open>
  The loop of lines 124-131 from slot \<open>i\<close> on. Closing a channel that is already
  closed panics.
\<close>

function Close_loop :: "ClientPool \<Rightarrow> int \<Rightarrow> unit outcome \<times> ClientPool \<times> event list" where
  "Close_loop p i =
     (if i < concurrency p then
        if i < 0 \<or> int (length (Sessions p)) \<le> i then (Panicked, p, [])
        else
          let tr1 = (case Sessions p ! nat i of Some s \<Rightarrow> [Release_call i] | None \<Rightarrow> [])
          in if int (length (requestChs p)) \<le> i then (Panicked, p, tr1)
             else
               (case requestChs p ! nat i of
                  None \<Rightarrow>
                    (case Close_loop p (i + 1) of (r, p', tr) \<Rightarrow> (r, p', tr1 @ tr))
                | Some ch \<Rightarrow>
                    if is_closed ch then (Panicked, p, tr1)
                    else
                      (case Close_loop
                              (p\<lparr>requestChs :=
                                   (requestChs p)[nat i := Some (ch\<lparr>is_closed := True\<rparr>)]\<rparr>)
                              (i + 1) of
                         (r, p', tr) \<Rightarrow> (r, p', tr1 @ close_call i # tr)))
      else (Returned (), p, []))"
  by pat_completeness auto
termination
  by (relation "measure (\<lambda>(p, i). nat (concurrency p - i))") auto

text \<open>The pre-stop step of lines 116-122; the error, if any, is what gets logged.\<close>

definition preStop_step :: "ClientPool \<Rightarrow> error option outcome \<times> ClientPool \<times> event list" where
  "preStop_step p =
     (case preStop p of
        None \<Rightarrow> (Returned None, p, [])
      | Some ps \<Rightarrow>
          (case NebulaPreStop.Commands ps of
             None \<Rightarrow> (Returned None, p, [])
           | Some cmds \<Rightarrow>
               let i = getActiveConnIdx p
               in if i \<noteq> - 1 then exec p i cmds else (Returned None, p, [])))"

text \<open>\<^verbatim>\<open>Close\<close>, lines 115-133.\<close>

definition Close :: "ClientPool \<Rightarrow> unit outcome \<times> ClientPool \<times> event list" where
  "Close p =
     (case preStop_step p of
        (Panicked, p1, tr1) \<Rightarrow> (Panicked, p1, tr1)
      | (Hung, p1, tr1) \<Rightarrow> (Hung, p1, tr1)
      | (Returned e, p1, tr1) \<Rightarrow>
          let tr2 = (case e of Some er \<Rightarrow> [Log_error er] | None \<Rightarrow> [])
          in (case Close_loop p1 0 of
                (Returned u, p2, tr3) \<Rightarrow> (Returned (), p2, tr1 @ tr2 @ tr3 @ [pool_Close])
              | (Panicked, p2, tr3) \<Rightarrow> (Panicked, p2, tr1 @ tr2 @ tr3)
              | (Hung, p2, tr3) \<Rightarrow> (Hung, p2, tr1 @ tr2 @ tr3)))"

subsection \<open>\<^verbatim>\<open>NewClientPool\<close>\<close>

text \<open>
  \<^verbatim>\<open>strings.Split(s, sep)\<close> for a separator of one character, which is how both
  calls use it: one more piece than there are separators, so the empty string gives
  one empty piece.
\<close>

fun Split :: "string \<Rightarrow> char \<Rightarrow> string list" where
  "Split [] sep = [[]]"
| "Split (c # cs) sep =
     (if c = sep then [] # Split cs sep
      else (case Split cs sep of [] \<Rightarrow> [[c]] | w # ws \<Rightarrow> (c # w) # ws))"

text \<open>
  \<^verbatim>\<open>strconv.Atoi\<close>: an optional sign, then one or more decimal digits, and a value
  that fits a 64-bit \<^verbatim>\<open>int\<close>; anything else is an error.
\<close>

definition digit_of :: "char \<Rightarrow> nat option" where
  "digit_of c =
     (if CHR ''0'' = c then Some 0 else if CHR ''1'' = c then Some 1
      else if CHR ''2'' = c then Some 2 else if CHR ''3'' = c then Some 3
      else if CHR ''4'' = c then Some 4 else if CHR ''5'' = c then Some 5
      else if CHR ''6'' = c then Some 6 else if CHR ''7'' = c then Some 7
      else if CHR ''8'' = c then Some 8 else if CHR ''9'' = c then Some 9
      else None)"

fun digits_value :: "string \<Rightarrow> nat \<Rightarrow> nat option" where
  "digits_value [] acc = Some acc"
| "digits_value (c # cs) acc =
     (case digit_of c of None \<Rightarrow> None | Some d \<Rightarrow> digits_value cs (10 * acc + d))"

definition Atoi :: "string \<Rightarrow> int option" where
  "Atoi s =
     (let neg = (take 1 s = ''-'');
          ds = (if take 1 s = ''-'' \<or> take 1 s = ''+'' then drop 1 s else s)
      in if ds = [] then None
         else
           (case digits_value ds 0 of
              None \<Rightarrow> None
            | Some v \<Rightarrow>
                let x = (if neg then - int v else int v)
                in if - (2 ^ 63) \<le> x \<and> x < 2 ^ 63 then Some x else None))"

record HostAddress =
  Host :: string
  Port :: int

text \<open>
  \<^verbatim>\<open>config.NebulaClientSettings\<close> is declared in pkg/config, which is not among
  the sources; clientpool.go reads its fields through pointers. The record holds the
  values the pointers point to (\<^verbatim>\<open>Connection.Address\<close>, \<^verbatim>\<open>Connection.User\<close> and
  \<^verbatim>\<open>Connection.Password\<close> as \<open>Address\<close>, \<open>User\<close>, \<open>Password\<close>); \<^verbatim>\<open>PostStart\<close> and
  \<^verbatim>\<open>PreStop\<close> are copied as pointers and may be nil.
\<close>

record NebulaClientSettings =
  Retry :: int
  Concurrency :: int
  ChannelBufferSize :: int
  Space :: string
  Address :: string
  User :: string
  Password :: string
  PostStart :: "NebulaPostStart option"
  PreStop :: "NebulaPreStop option"

text \<open>
  The result of an arithmetic operation on Go's 64-bit \<^verbatim>\<open>int\<close>: the value is
  reduced modulo \<open>2^64\<close> into the range from \<open>-2^63\<close> to \<open>2^63 - 1\<close>.
\<close>

definition int64_wrap :: "int \<Rightarrow> int" where
  "int64_wrap x = (x + 2 ^ 63) mod 2 ^ 64 - 2 ^ 63"

text \<open>
  The Go runtime, as far as \<^verbatim>\<open>make\<close> depends on it: the largest length it
  allocates for a slice of pointers and the largest capacity it allocates for a
  channel of requests. \<^verbatim>\<open>make\<close> panics for a length that is negative or above the
  limit. The limits depend on the platform and on the memory left, so they are taken
  as they come.
\<close>

record runtime =
  maxSliceLen :: int
  maxChanCap :: int

text \<open>
  The cluster, as \<^verbatim>\<open>NewClientPool\<close> meets it: whether
  \<^verbatim>\<open>nebula.NewConnectionPool(hosts, conf, log)\<close> fails for the hosts and
  \<^verbatim>\<open>MaxConnPoolSize\<close>, and what the call number \<open>j\<close> (from 0) of \<^verbatim>\<open>GetSession\<close>
  returns for the user and the password: an error, or a session.
\<close>

record cluster =
  NewConnectionPool :: "HostAddress list \<Rightarrow> int \<Rightarrow> error option"
  GetSession :: "nat \<Rightarrow> string \<Rightarrow> string \<Rightarrow> error + Session"

text \<open>The loop of lines 40-51 over the addresses left, \<open>hosts\<close> being the slice built so far.\<close>

fun parse_addrs :: "string list \<Rightarrow> HostAddress list \<Rightarrow> error + HostAddress list" where
  "parse_addrs [] hosts = Inr hosts"
| "parse_addrs (addr # rest) hosts =
     (let hostPort = Split addr CHR '':''
      in if length hostPort \<noteq> 2 then Inl (Errorf_invalid_address addr)
         else
           (case Atoi (hostPort ! 1) of
              None \<Rightarrow> Inl (NumError (hostPort ! 1))
            | Some port \<Rightarrow>
                parse_addrs rest (hosts @ [\<lparr>Host = hostPort ! 0, Port = port\<rparr>])))"

text \<open>
  The inner loop of lines 77-83 from \<open>i\<close> on, \<open>j\<close> being the next slot. A store into
  a slice panics out of range, and \<^verbatim>\<open>make(chan, n)\<close> panics for an \<open>n\<close> that is
  negative or above the runtime's limit. The result is the pool with the next slot, or
  the error returned.
\<close>

function acquire_inner ::
  "cluster \<Rightarrow> runtime \<Rightarrow> NebulaClientSettings \<Rightarrow> ClientPool \<Rightarrow> nat \<Rightarrow> int \<Rightarrow>
     (error + ClientPool \<times> nat) outcome \<times> event list" where
  "acquire_inner env rt st pool j i =
     (if i < Concurrency st then
        (case GetSession env j (User st) (Password st) of
           Inl e \<Rightarrow>
             if length (Sessions pool) \<le> j then (Panicked, [GetSession_call (Some e)])
             else (Returned (Inl e), [GetSession_call (Some e)])
         | Inr s \<Rightarrow>
             if length (Sessions pool) \<le> j then (Panicked, [GetSession_call None])
             else if ChannelBufferSize st < 0 \<or> maxChanCap rt < ChannelBufferSize st
                     \<or> length (requestChs pool) \<le> j
             then (Panicked, [GetSession_call None])
             else
               (case acquire_inner env rt st
                       (pool\<lparr>Sessions := (Sessions pool)[j := Some s],
                             requestChs := (requestChs pool)
                               [j := Some \<lparr>cap = ChannelBufferSize st, buf = [],
                                          is_closed = False\<rparr>]\<rparr>)
                       (Suc j) (i + 1) of
                  (r, tr) \<Rightarrow> (r, GetSession_call None # tr)))
      else (Returned (Inr (pool, j)), []))"
  by pat_completeness auto
termination
  by (relation "measure (\<lambda>(env, rt, st, pool, j, i). nat (Concurrency st - i))") auto

text \<open>The outer loop of lines 76-84 from \<open>k\<close> on, over \<open>n\<close> addresses.\<close>

function acquire_outer ::
  "cluster \<Rightarrow> runtime \<Rightarrow> NebulaClientSettings \<Rightarrow> nat \<Rightarrow> ClientPool \<Rightarrow> nat \<Rightarrow> int \<Rightarrow>
     (error + ClientPool) outcome \<times> event list" where
  "acquire_outer env rt st n pool j k =
     (if k < int n then
        (case acquire_inner env rt st pool j 0 of
           (Returned (Inr (pool', j')), tr) \<Rightarrow>
             (case acquire_outer env rt st n pool' j' (k + 1) of (r, tr') \<Rightarrow> (r, tr @ tr'))
         | (Returned (Inl e), tr) \<Rightarrow> (Returned (Inl e), tr)
         | (Panicked, tr) \<Rightarrow> (Panicked, tr)
         | (Hung, tr) \<Rightarrow> (Hung, tr))
      else (Returned (Inr pool), []))"
  by pat_completeness auto
termination
  by (relation "measure (\<lambda>(env, rt, st, n, pool, j, k). nat (int n - k))") auto

text \<open>
  \<^verbatim>\<open>NewClientPool\<close>, lines 37-87. \<open>Inl\<close> is \<^verbatim>\<open>(nil, err)\<close>, \<open>Inr\<close> is
  \<^verbatim>\<open>(&pool, nil)\<close>. Both products are Go's, so they wrap; \<^verbatim>\<open>make\<close> panics for a
  length that is negative or above the runtime's limit.
\<close>

definition NewClientPool ::
  "cluster \<Rightarrow> runtime \<Rightarrow> NebulaClientSettings \<Rightarrow>
     (error + ClientPool) outcome \<times> event list" where
  "NewClientPool env rt st =
     (let addrs = Split (Address st) CHR '',''
      in case parse_addrs addrs [] of
           Inl e \<Rightarrow> (Returned (Inl e), [])
         | Inr hosts \<Rightarrow>
             (case NewConnectionPool env hosts
                     (int64_wrap (int (length addrs) * Concurrency st)) of
                Some e \<Rightarrow> (Returned (Inl e), [])
              | None \<Rightarrow>
                  let c = int64_wrap (Concurrency st * int (length addrs))
                  in if c < 0 \<or> maxSliceLen rt < c then (Panicked, [])
                     else
                       acquire_outer env rt st (length addrs)
                         \<lparr>retry = Retry st, concurrency = c, space = Space st,
                          postStart = PostStart st, preStop = PreStop st,
                          Sessions = replicate (nat c) None,
                          requestChs = replicate (nat c) None\<rparr>
                         0 0))"

subsection \<open>Predicates for stating the properties\<close>

text \<open>
  The attempts C4 speaks of: the attempt did not succeed, and its response, if there
  is one, carries neither a permanent code nor the backpressure message. A transport
  error with no response is one of them.
\<close>

definition bounded_failure :: "reply \<Rightarrow> bool" where
  "bounded_failure a =
     (case resp a of
        None \<Rightarrow> err a \<noteq> None
      | Some r \<Rightarrow>
          \<not> (err a = None \<and> IsSucceed r)
          \<and> GetErrorCode r \<noteq> ErrorCode_E_SYNTAX_ERROR
          \<and> GetErrorCode r \<noteq> ErrorCode_E_SEMANTIC_ERROR
          \<and> \<not> Contains (GetErrorMsg r) ''raft buffer is full'')"


text \<open>The test of line 202: the attempt succeeded.\<close>

definition succeeded :: "reply \<Rightarrow> bool" where
  "succeeded a = (err a = None \<and> (case resp a of Some r \<Rightarrow> IsSucceed r | None \<Rightarrow> False))"

text \<open>The outcomes a worker publishes: the sends on an error channel and on the stats channel.\<close>

fun is_report :: "event \<Rightarrow> bool" where
  "is_report (Send_ErrCh c d) = True"
| "is_report (Send_statsCh st) = True"
| "is_report _ = False"

definition reports :: "event list \<Rightarrow> event list" where
  "reports tr = filter is_report tr"

text \<open>
  What \<^verbatim>\<open>Close\<close> does to slot \<open>j\<close>: it releases the session if there is one, then
  closes the queue if there is one.
\<close>

definition slot_events :: "ClientPool \<Rightarrow> nat \<Rightarrow> event list" where
  "slot_events p j =
     (case Sessions p ! j of Some s \<Rightarrow> [Release_call (int j)] | None \<Rightarrow> []) @
     (case requestChs p ! j of Some ch \<Rightarrow> [close_call (int j)] | None \<Rightarrow> [])"

text \<open>A slot of \<^verbatim>\<open>requestChs\<close> after \<^verbatim>\<open>close\<close>, and a slot whose queue is nil or not yet closed.\<close>

definition close_chan :: "chan option \<Rightarrow> chan option" where
  "close_chan c = (case c of None \<Rightarrow> None | Some ch \<Rightarrow> Some (ch\<lparr>is_closed := True\<rparr>))"

definition is_open :: "chan option \<Rightarrow> bool" where
  "is_open c = (case c of None \<Rightarrow> True | Some ch \<Rightarrow> \<not> is_closed ch)"

text \<open>
  The reading of "release every session, then close every queue": in the trace, all
  the releases come before all the closes.
\<close>

fun is_Release :: "event \<Rightarrow> bool" where
  "is_Release (Release_call i) = True"
| "is_Release _ = False"

fun is_close :: "event \<Rightarrow> bool" where
  "is_close (close_call i) = True"
| "is_close _ = False"

definition releases_before_closes :: "event list \<Rightarrow> bool" where
  "releases_before_closes tr =
     (filter (\<lambda>e. is_Release e \<or> is_close e) tr = filter is_Release tr @ filter is_close tr)"

text \<open>
  An entry of the address list that does not split into exactly a host and a port, or
  whose port \<^verbatim>\<open>strconv.Atoi\<close> rejects.
\<close>

definition malformed_address :: "string \<Rightarrow> bool" where
  "malformed_address addr =
     (length (Split addr CHR '':'') \<noteq> 2 \<or> Atoi (Split addr CHR '':'' ! 1) = None)"

text \<open>The queue \<^verbatim>\<open>make(chan base.ClientRequest, *settings.ChannelBufferSize)\<close> creates.\<close>

definition fresh_chan :: "NebulaClientSettings \<Rightarrow> chan option" where
  "fresh_chan st = Some \<lparr>cap = ChannelBufferSize st, buf = [], is_closed = False\<rparr>"

subsection \<open>Inputs for the examples\<close>

text \<open>
  Replies of a session: a success, a syntax error whose message quotes a statement
  that contains the backpressure text, the backpressure error itself, a transport
  error without a response, and an execution error of the bounded class.
\<close>

definition reply_ok :: reply where
  "reply_ok =
     \<lparr>resp = Some \<lparr>GetErrorCode = ErrorCode_SUCCEEDED, GetErrorMsg = [], GetLatency = 7\<rparr>,
      err = None, backoff_stop = False, since_ns = 5000\<rparr>"

definition reply_syntax :: reply where
  "reply_syntax =
     \<lparr>resp = Some \<lparr>GetErrorCode = ErrorCode_E_SYNTAX_ERROR,
                    GetErrorMsg = ''syntax error near raft buffer is full'', GetLatency = 3\<rparr>,
      err = None, backoff_stop = False, since_ns = 2500\<rparr>"

definition reply_raft :: reply where
  "reply_raft =
     \<lparr>resp = Some \<lparr>GetErrorCode = ErrorCode_OTHER (- 1005),
                    GetErrorMsg = ''Storage Error: raft buffer is full. Please retry later.'',
                    GetLatency = 3\<rparr>,
      err = None, backoff_stop = False, since_ns = 2500\<rparr>"

definition reply_eof :: reply where
  "reply_eof =
     \<lparr>resp = None, err = Some (LibError ''EOF''), backoff_stop = False, since_ns = 900\<rparr>"


text \<open>A request with two records of 2 and 3 bytes, and the sentinel.\<close>

definition request_insert :: ClientRequest where
  "request_insert =
     \<lparr>Stmt = ''INSERT VERTEX t() VALUES 1:()'',
      Data = [\<lparr>Record = [''1''], Bytes = 2\<rparr>, \<lparr>Record = [''2''], Bytes = 3\<rparr>],
      ErrCh = 4\<rparr>"

definition request_done :: ClientRequest where
  "request_done = \<lparr>Stmt = STAT_FILEDONE, Data = [], ErrCh = 9\<rparr>"

text \<open>
  A pool of two slots with a pre-stop command; session 1 will answer its next call
  with a transport error. \<open>pool3\<close> is the same pool without a session in slot 0.
\<close>

definition pool2 :: ClientPool where
  "pool2 =
     \<lparr>retry = 2, concurrency = 2, space = ''basketball'', postStart = None,
      preStop = Some \<lparr>NebulaPreStop.Commands = Some ''DROP SPACE tmp;''\<rparr>,
      Sessions = [Some \<lparr>replies = [reply_ok, reply_ok]\<rparr>, Some \<lparr>replies = [reply_eof]\<rparr>],
      requestChs =
        [Some \<lparr>cap = 8, buf = [request_insert, request_done], is_closed = False\<rparr>,
         Some \<lparr>cap = 8, buf = [request_insert], is_closed = False\<rparr>]\<rparr>"

definition pool3 :: ClientPool where
  "pool3 = pool2\<lparr>Sessions := [None, Some \<lparr>replies = [reply_eof]\<rparr>]\<rparr>"

text \<open>
  The settings of the two-host scenario, a cluster that accepts every connection and
  login, one that refuses the second login and one that refuses every login, and a
  runtime with the limits of a 64-bit Linux. Then two settings whose product wraps:
  a concurrency of \<open>-(2^63 - 1)\<close> on two hosts gives 2, and a concurrency of \<open>2^62\<close>
  on four hosts gives 0.
\<close>

definition settings2 :: NebulaClientSettings where
  "settings2 =
     \<lparr>Retry = 2, Concurrency = 1, ChannelBufferSize = 8, Space = ''basketball'',
      Address = ''h1:9669,h2:9669'', User = ''root'', Password = ''nebula'',
      PostStart = None, PreStop = None\<rparr>"

definition cluster_up :: cluster where
  "cluster_up =
     \<lparr>NewConnectionPool = (\<lambda>hosts n. None),
      GetSession = (\<lambda>j u pw. Inr \<lparr>replies = []\<rparr>)\<rparr>"

definition cluster_auth_fails :: cluster where
  "cluster_auth_fails =
     \<lparr>NewConnectionPool = (\<lambda>hosts n. None),
      GetSession = (\<lambda>j u pw. if j = 1 then Inl (LibError ''bad password'')
                               else Inr \<lparr>replies = []\<rparr>)\<rparr>"

definition cluster_refuses :: cluster where
  "cluster_refuses =
     \<lparr>NewConnectionPool = (\<lambda>hosts n. None),
      GetSession = (\<lambda>j u pw. Inl (LibError ''bad password''))\<rparr>"

definition runtime_linux :: runtime where
  "runtime_linux = \<lparr>maxSliceLen = 2 ^ 45, maxChanCap = 2 ^ 42\<rparr>"

definition settings_negative :: NebulaClientSettings where
  "settings_negative = settings2\<lparr>Concurrency := - 9223372036854775807\<rparr>"

definition settings_overflow :: NebulaClientSettings where
  "settings_overflow =
     settings2\<lparr>Concurrency := 4611686018427387904,
               Address := ''h1:9669,h2:9669,h3:9669,h4:9669''\<rparr>"

section \<open>Properties\<close>

subsection \<open>The classifier\<close>

lemma operation_permanent:
  assumes "resp a = Some r"
    and "GetErrorCode r = ErrorCode_E_SYNTAX_ERROR \<or> GetErrorCode r = ErrorCode_E_SEMANTIC_ERROR"
  shows "operation p_retry n a =
           (Op_Permanent (Errorf_code_msg (GetErrorCode r) (GetErrorMsg r)), n)"
  using assms by (auto simp: operation_def IsSucceed_def Let_def)

text \<open>
  C1. When the response of an attempt carries the syntax-error or the semantic-error
  code, the closure returns a permanent error and leaves \<^verbatim>\<open>retry\<close> as it was,
  whatever \<^verbatim>\<open>retry\<close> and \<^verbatim>\<open>p.retry\<close> are; \<^verbatim>\<open>backoff.Retry\<close> stops after that one
  call; and the worker resolves the request with one \<^verbatim>\<open>Execute\<close> call and an error
  report carrying the request's payload.
\<close>

theorem permanent_code_stops_retrying:
  assumes "resp a = Some r"
    and "GetErrorCode r = ErrorCode_E_SYNTAX_ERROR \<or> GetErrorCode r = ErrorCode_E_SEMANTIC_ERROR"
  shows "operation p_retry n a =
           (Op_Permanent (Errorf_code_msg (GetErrorCode r) (GetErrorMsg r)), n)
       \<and> backoff_Retry p_retry n (a # as) = (Returned (a, n), 1, as)
       \<and> (\<exists>e. handle_request p_retry i \<lparr>replies = a # as\<rparr> data =
              (Returned (), \<lparr>replies = as\<rparr>,
               [Execute_call i (Stmt data),
                Send_ErrCh (ErrCh data) \<lparr>Error = Some e, Data = ClientRequest.Data data\<rparr>]))"
proof -
  have op: "\<And>m. operation p_retry m a =
      (Op_Permanent (Errorf_code_msg (GetErrorCode r) (GetErrorMsg r)), m)"
    using assms by (rule operation_permanent)
  have rt: "\<And>m. backoff_Retry p_retry m (a # as) = (Returned (a, m), 1, as)"
    by (simp add: op)
  note backoff_Retry.simps [simp del]
  have "\<not> IsSucceed r"
    using assms(2) by (auto simp: IsSucceed_def)
  then have "\<exists>e. handle_request p_retry i \<lparr>replies = a # as\<rparr> data =
              (Returned (), \<lparr>replies = as\<rparr>,
               [Execute_call i (Stmt data),
                Send_ErrCh (ErrCh data) \<lparr>Error = Some e, Data = ClientRequest.Data data\<rparr>])"
    using assms(1) by (cases "err a") (simp_all add: handle_request_def rt)
  with op rt show ?thesis by blast
qed

theorem permanent_code_stops_retrying_witness:
  "operation 5 5 reply_syntax =
     (Op_Permanent
        (Errorf_code_msg ErrorCode_E_SYNTAX_ERROR ''syntax error near raft buffer is full''), 5)
   \<and> backoff_Retry 5 5 [reply_syntax, reply_ok] = (Returned (reply_syntax, 5), 1, [reply_ok])
   \<and> (\<exists>e. handle_request 5 0 \<lparr>replies = [reply_syntax, reply_ok]\<rparr> request_insert =
          (Returned (), \<lparr>replies = [reply_ok]\<rparr>,
           [Execute_call 0 (Stmt request_insert),
            Send_ErrCh (ErrCh request_insert)
              \<lparr>Error = Some e, Data = ClientRequest.Data request_insert\<rparr>]))"
  using permanent_code_stops_retrying
    [of reply_syntax "\<lparr>GetErrorCode = ErrorCode_E_SYNTAX_ERROR,
          GetErrorMsg = ''syntax error near raft buffer is full'', GetLatency = 3\<rparr>"
        5 5 "[reply_ok]" 0 request_insert]
  by (simp add: reply_syntax_def)

lemma isPermanentError_iff:
  "isPermanentError c \<longleftrightarrow> c = ErrorCode_E_SYNTAX_ERROR \<or> c = ErrorCode_E_SEMANTIC_ERROR"
  by (cases c) simp_all

lemma operation_backpressure:
  assumes "resp a = Some r"
    and "GetErrorCode r \<noteq> ErrorCode_E_SYNTAX_ERROR"
    and "GetErrorCode r \<noteq> ErrorCode_E_SEMANTIC_ERROR"
    and "\<not> (err a = None \<and> IsSucceed r)"
    and "Contains (GetErrorMsg r) ''raft buffer is full''"
  shows "operation p_retry n a =
           (Op_error (Errorf_code_msg (GetErrorCode r) (GetErrorMsg r)), p_retry)"
  using assms by (auto simp: operation_def Let_def isPermanentError_iff)

text \<open>
  C2, as the code has it. The closure tests the permanent codes before the message
  (case 1 before case 2), and returns \<^verbatim>\<open>nil\<close> before either when the attempt
  succeeded. So: when an attempt did not succeed, its response is present and carries
  neither permanent code, and the message contains "raft buffer is full", the closure
  sets \<^verbatim>\<open>retry\<close> to \<^verbatim>\<open>p.retry\<close>, whatever it was, and returns a plain error;
  \<^verbatim>\<open>backoff.Retry\<close> then makes another attempt with the full budget, unless
  \<^verbatim>\<open>NextBackOff\<close> reports that the elapsed-time cap is reached.
\<close>

theorem backpressure_resets_retry:
  assumes "resp a = Some r"
    and "GetErrorCode r \<noteq> ErrorCode_E_SYNTAX_ERROR"
    and "GetErrorCode r \<noteq> ErrorCode_E_SEMANTIC_ERROR"
    and "\<not> (err a = None \<and> IsSucceed r)"
    and "Contains (GetErrorMsg r) ''raft buffer is full''"
  shows "operation p_retry n a =
           (Op_error (Errorf_code_msg (GetErrorCode r) (GetErrorMsg r)), p_retry)
       \<and> backoff_Retry p_retry n (a # as) =
           (if backoff_stop a then (Returned (a, p_retry), 1, as)
            else (case backoff_Retry p_retry p_retry as of (x, k, rest) \<Rightarrow> (x, Suc k, rest)))"
  using operation_backpressure [OF assms] by simp

text \<open>
  With a budget of 3 and one retry left, a backpressure reply puts the counter back
  to 3: the three transport errors that follow are all retried and the fifth attempt
  succeeds.
\<close>

theorem backpressure_resets_retry_witness:
  "operation 3 1 reply_raft =
     (Op_error (Errorf_code_msg (ErrorCode_OTHER (- 1005))
                  ''Storage Error: raft buffer is full. Please retry later.''), 3)
   \<and> backoff_Retry 3 1 [reply_raft, reply_eof, reply_eof, reply_eof, reply_ok] =
       (Returned (reply_ok, 0), 5, [])"
  using backpressure_resets_retry
    [of reply_raft "\<lparr>GetErrorCode = ErrorCode_OTHER (- 1005),
          GetErrorMsg = ''Storage Error: raft buffer is full. Please retry later.'',
          GetLatency = 3\<rparr>" 3 1 "[reply_eof, reply_eof, reply_eof, reply_ok]"]
  by (simp add: reply_raft_def reply_eof_def reply_ok_def operation_def IsSucceed_def)

text \<open>
  C2 as stated fails: a syntax-error response whose message contains "raft buffer is
  full" (the message quotes the statement) is a permanent error. After two transport
  errors on a budget of 3 the counter is 1; the third reply is such a response, and
  the loop stops there with the counter still 1 and the next reply never asked for.
\<close>

theorem backpressure_resets_retry_counterexample:
  "resp reply_syntax =
     Some \<lparr>GetErrorCode = ErrorCode_E_SYNTAX_ERROR,
           GetErrorMsg = ''syntax error near raft buffer is full'', GetLatency = 3\<rparr>
   \<and> Contains ''syntax error near raft buffer is full'' ''raft buffer is full''
   \<and> backoff_Retry 3 3 [reply_eof, reply_eof, reply_syntax, reply_ok] =
       (Returned (reply_syntax, 1), 3, [reply_ok])
   \<and> operation 3 1 reply_syntax =
       (Op_Permanent (Errorf_code_msg ErrorCode_E_SYNTAX_ERROR
                        ''syntax error near raft buffer is full''), 1)"
  by (simp add: reply_syntax_def reply_eof_def reply_ok_def operation_def IsSucceed_def)


lemma bounded_failure_not_succeeded: "bounded_failure a \<Longrightarrow> \<not> succeeded a"
  by (auto simp: bounded_failure_def succeeded_def split: option.splits)

lemma operation_cases:
  "operation p n a = (x, m) \<Longrightarrow>
     (x = Op_panic \<longleftrightarrow> resp a = None \<and> err a = None) \<and> (x = Op_nil \<longleftrightarrow> succeeded a)"
  by (auto simp: operation_def succeeded_def Let_def split: option.splits if_splits)

lemma backoff_Retry_shape:
  "backoff_Retry p n as = (x, c, rest) \<Longrightarrow>
     1 \<le> c \<and> rest = drop c as \<and>
     (\<forall>a m. x = Returned (a, m) \<longrightarrow>
        c \<le> length as \<and> a = as ! (c - 1) \<and> \<not> (resp a = None \<and> err a = None))"
proof (induction as arbitrary: n x c rest)
  case Nil
  then show ?case by simp
next
  case (Cons b bs)
  obtain y n' where op: "operation p n b = (y, n')" by (cases "operation p n b")
  note pc = operation_cases [OF op]
  show ?case
  proof (cases y)
    case Op_nil
    with Cons.prems op pc show ?thesis by (auto simp: succeeded_def)
  next
    case (Op_Permanent e)
    with Cons.prems op pc show ?thesis by auto
  next
    case (Op_error e)
    show ?thesis
    proof (cases "backoff_stop b")
      case True
      with Cons.prems op pc Op_error show ?thesis by auto
    next
      case False
      obtain x' c' rest' where rec: "backoff_Retry p n' bs = (x', c', rest')"
        by (cases "backoff_Retry p n' bs")
      from Cons.IH [OF rec] Cons.prems op Op_error False rec show ?thesis
        by (auto simp: nth_Cons split: nat.splits)
    qed
  next
    case Op_panic
    with Cons.prems op show ?thesis by auto
  qed
qed


lemma importedBytes_sum_list: "importedBytes ds = sum_list (map Bytes ds)"
proof -
  have "foldl (\<lambda>acc d. acc + Bytes d) z ds = z + sum_list (map Bytes ds)" for z
    by (induction ds arbitrary: z) (simp_all add: add.assoc)
  then show ?thesis by (simp add: importedBytes_def)
qed

lemma reports_calls [simp]: "reports (replicate c (Execute_call i st) @ tr) = reports tr"
  by (induction c) (simp_all add: reports_def)



subsection \<open>The worker\<close>

lemma backoff_Retry_resolves:
  assumes "\<forall>a\<in>set as. \<not> (resp a = None \<and> err a = None)"
    and "\<exists>a\<in>set as. backoff_stop a \<or> succeeded a"
  shows "\<exists>a m c rest. backoff_Retry p n as = (Returned (a, m), c, rest)"
  using assms
proof (induction as arbitrary: n)
  case Nil
  then show ?case by simp
next
  case (Cons b bs)
  obtain y n' where op: "operation p n b = (y, n')" by (cases "operation p n b")
  note pc = operation_cases [OF op]
  have np: "y \<noteq> Op_panic" using pc Cons.prems(1) by simp
  show ?case
  proof (cases y)
    case Op_nil
    with op show ?thesis by simp
  next
    case (Op_Permanent e)
    with op show ?thesis by simp
  next
    case (Op_error e)
    show ?thesis
    proof (cases "backoff_stop b")
      case True
      with op Op_error show ?thesis by simp
    next
      case False
      have "\<not> succeeded b" using pc Op_error by simp
      with False Cons.prems(2) have ex: "\<exists>a\<in>set bs. backoff_stop a \<or> succeeded a" by auto
      have "\<forall>a\<in>set bs. \<not> (resp a = None \<and> err a = None)" using Cons.prems(1) by simp
      from Cons.IH [OF this ex, of n']
      obtain a m c rest where "backoff_Retry p n' bs = (Returned (a, m), c, rest)" by blast
      with op Op_error False show ?thesis by simp
    qed
  next
    case Op_panic
    with np show ?thesis by simp
  qed
qed

text \<open>
  C5. Whenever the retry loop of a request comes to an end after \<open>c\<close> \<^verbatim>\<open>Execute\<close>
  calls, the worker's round returns, and its trace is those \<open>c \<ge> 1\<close> calls, all for
  the request's statement, followed by exactly one report. If the last attempt
  succeeded, the report is one success record on the stats channel, with the latency
  of the last response, the time since the request was dequeued divided by 1000, the
  number of records and the sum of their bytes (modulo \<open>2^64\<close>). If it did not, the
  report is one \<^verbatim>\<open>ErrData\<close> on the request's error channel with a non-nil error and
  the request's payload. A request that is not the sentinel is handled this way by the
  worker's loop, which then goes on with the rest of the queue. And the retry loop
  does come to an end when the session answers every call with a response or an
  error and some answer is a success or reaches the elapsed-time cap.
\<close>

theorem one_outcome_per_request:
  "(\<forall>a m c rest.
      backoff_Retry p_retry p_retry (replies s) = (Returned (a, m), c, rest) \<longrightarrow>
      (\<exists>ev. handle_request p_retry i s data =
               (Returned (), s\<lparr>replies := rest\<rparr>,
                replicate c (Execute_call i (Stmt data)) @ [ev])
          \<and> reports (replicate c (Execute_call i (Stmt data)) @ [ev]) = [ev]
          \<and> 1 \<le> c \<and> c \<le> length (replies s) \<and> a = replies s ! (c - 1)
          \<and> rest = drop c (replies s)
          \<and> (succeeded a \<longrightarrow>
               (\<exists>r. resp a = Some r \<and>
                  ev = Send_statsCh
                         (NewSuccessStats (GetLatency r) (since_ns a sdiv 1000)
                            (int (length (ClientRequest.Data data)))
                            (sum_list (map Bytes (ClientRequest.Data data))))))
          \<and> (\<not> succeeded a \<longrightarrow>
               (\<exists>e. ev = Send_ErrCh (ErrCh data)
                            \<lparr>Error = Some e, Data = ClientRequest.Data data\<rparr>))
          \<and> (Stmt data \<noteq> STAT_FILEDONE \<longrightarrow>
               worker_loop p_retry i s (data # q) cl =
                 (case worker_loop p_retry i (s\<lparr>replies := rest\<rparr>) q cl of
                    (w, s'', q', tr') \<Rightarrow>
                      (w, s'', q', replicate c (Execute_call i (Stmt data)) @ ev # tr')))))
   \<and> ((\<forall>a\<in>set (replies s). \<not> (resp a = None \<and> err a = None))
        \<and> (\<exists>a\<in>set (replies s). backoff_stop a \<or> succeeded a) \<longrightarrow>
      (\<exists>a m c rest.
         backoff_Retry p_retry p_retry (replies s) = (Returned (a, m), c, rest)))"
proof (intro conjI allI impI)
  fix a m c rest
  assume r: "backoff_Retry p_retry p_retry (replies s) = (Returned (a, m), c, rest)"
  let ?calls = "replicate c (Execute_call i (Stmt data))"
  from backoff_Retry_shape [OF r]
  have c1: "1 \<le> c" and cl: "c \<le> length (replies s)" and a: "a = replies s ! (c - 1)"
    and rest: "rest = drop c (replies s)" and np: "\<not> (resp a = None \<and> err a = None)"
    by auto
  have "\<exists>ev. handle_request p_retry i s data = (Returned (), s\<lparr>replies := rest\<rparr>, ?calls @ [ev])
      \<and> is_report ev
      \<and> (succeeded a \<longrightarrow>
               (\<exists>r. resp a = Some r \<and>
                  ev = Send_statsCh
                         (NewSuccessStats (GetLatency r) (since_ns a sdiv 1000)
                            (int (length (ClientRequest.Data data)))
                            (sum_list (map Bytes (ClientRequest.Data data))))))
      \<and> (\<not> succeeded a \<longrightarrow>
               (\<exists>e. ev = Send_ErrCh (ErrCh data)
                            \<lparr>Error = Some e, Data = ClientRequest.Data data\<rparr>))"
    using r np
    by (auto simp: handle_request_def Let_def succeeded_def importedBytes_sum_list
        split: option.splits)
  then obtain ev where
    h: "handle_request p_retry i s data = (Returned (), s\<lparr>replies := rest\<rparr>, ?calls @ [ev])"
    and rep: "is_report ev"
    and ok: "succeeded a \<longrightarrow>
               (\<exists>r. resp a = Some r \<and>
                  ev = Send_statsCh
                         (NewSuccessStats (GetLatency r) (since_ns a sdiv 1000)
                            (int (length (ClientRequest.Data data)))
                            (sum_list (map Bytes (ClientRequest.Data data)))))"
    and bad: "\<not> succeeded a \<longrightarrow>
               (\<exists>e. ev = Send_ErrCh (ErrCh data)
                            \<lparr>Error = Some e, Data = ClientRequest.Data data\<rparr>)"
    by blast
  have one: "reports (?calls @ [ev]) = [ev]"
    using rep by (simp add: reports_def)
  have wl: "Stmt data \<noteq> STAT_FILEDONE \<longrightarrow>
               worker_loop p_retry i s (data # q) cl =
                 (case worker_loop p_retry i (s\<lparr>replies := rest\<rparr>) q cl of
                    (w, s'', q', tr') \<Rightarrow> (w, s'', q', ?calls @ ev # tr'))"
    using h by simp
  from h one c1 cl a rest ok bad wl
  show "\<exists>ev. handle_request p_retry i s data =
               (Returned (), s\<lparr>replies := rest\<rparr>, ?calls @ [ev])
          \<and> reports (?calls @ [ev]) = [ev]
          \<and> 1 \<le> c \<and> c \<le> length (replies s) \<and> a = replies s ! (c - 1)
          \<and> rest = drop c (replies s)
          \<and> (succeeded a \<longrightarrow>
               (\<exists>r. resp a = Some r \<and>
                  ev = Send_statsCh
                         (NewSuccessStats (GetLatency r) (since_ns a sdiv 1000)
                            (int (length (ClientRequest.Data data)))
                            (sum_list (map Bytes (ClientRequest.Data data))))))
          \<and> (\<not> succeeded a \<longrightarrow>
               (\<exists>e. ev = Send_ErrCh (ErrCh data)
                            \<lparr>Error = Some e, Data = ClientRequest.Data data\<rparr>))
          \<and> (Stmt data \<noteq> STAT_FILEDONE \<longrightarrow>
               worker_loop p_retry i s (data # q) cl =
                 (case worker_loop p_retry i (s\<lparr>replies := rest\<rparr>) q cl of
                    (w, s'', q', tr') \<Rightarrow> (w, s'', q', ?calls @ ev # tr')))"
    by blast
next
  assume "(\<forall>a\<in>set (replies s). \<not> (resp a = None \<and> err a = None))
        \<and> (\<exists>a\<in>set (replies s). backoff_stop a \<or> succeeded a)"
  then show "\<exists>a m c rest.
         backoff_Retry p_retry p_retry (replies s) = (Returned (a, m), c, rest)"
    using backoff_Retry_resolves by blast
qed

text \<open>
  A transport error, then a success: two calls and one success record. A syntax
  error: one call and one error report.
\<close>

theorem one_outcome_per_request_witness:
  "handle_request 2 0 \<lparr>replies = [reply_eof, reply_ok]\<rparr> request_insert =
     (Returned (), \<lparr>replies = []\<rparr>,
      [Execute_call 0 (Stmt request_insert), Execute_call 0 (Stmt request_insert),
       Send_statsCh (NewSuccessStats 7 5 2 5)])
   \<and> worker_loop 2 0 \<lparr>replies = [reply_eof, reply_ok]\<rparr> [request_insert] True =
       (Stopped, \<lparr>replies = []\<rparr>, [],
        [Execute_call 0 (Stmt request_insert), Execute_call 0 (Stmt request_insert),
         Send_statsCh (NewSuccessStats 7 5 2 5)])
   \<and> (\<exists>e. handle_request 2 0 \<lparr>replies = [reply_syntax, reply_ok]\<rparr> request_insert =
          (Returned (), \<lparr>replies = [reply_ok]\<rparr>,
           [Execute_call 0 (Stmt request_insert),
            Send_ErrCh 4 \<lparr>Error = Some e, Data = ClientRequest.Data request_insert\<rparr>]))"
proof -
  let ?s = "\<lparr>replies = [reply_eof, reply_ok]\<rparr>"
  let ?t = "\<lparr>replies = [reply_syntax, reply_ok]\<rparr>"
  have r1: "backoff_Retry 2 2 (replies ?s) = (Returned (reply_ok, 1), 2, [])"
    by (simp add: reply_eof_def reply_ok_def operation_def IsSucceed_def)
  have r2: "backoff_Retry 2 2 (replies ?t) = (Returned (reply_syntax, 2), 1, [reply_ok])"
    by (simp add: reply_syntax_def operation_def IsSucceed_def)
  have ns: "Stmt request_insert \<noteq> STAT_FILEDONE"
    by (simp add: request_insert_def STAT_FILEDONE_def)
  have ok: "succeeded reply_ok"
    and rp: "resp reply_ok =
       Some \<lparr>GetErrorCode = ErrorCode_SUCCEEDED, GetErrorMsg = [], GetLatency = 7\<rparr>"
    and sn: "since_ns reply_ok = 5000"
    by (simp_all add: succeeded_def reply_ok_def IsSucceed_def)
  have bad: "\<not> succeeded reply_syntax"
    by (simp add: succeeded_def reply_syntax_def IsSucceed_def)
  have dt: "int (length (ClientRequest.Data request_insert)) = 2"
    "sum_list (map Bytes (ClientRequest.Data request_insert)) = 5"
    "ErrCh request_insert = 4"
    by (simp_all add: request_insert_def)
  note th1 = one_outcome_per_request [of 2 ?s 0 request_insert "[]" True]
  note th2 = one_outcome_per_request [of 2 ?t 0 request_insert "[]" True]
  from th1 r1 obtain ev where
    h1: "handle_request 2 0 ?s request_insert =
        (Returned (), ?s\<lparr>replies := []\<rparr>,
         replicate 2 (Execute_call 0 (Stmt request_insert)) @ [ev])"
    and e1: "succeeded reply_ok \<longrightarrow>
        (\<exists>r. resp reply_ok = Some r \<and>
           ev = Send_statsCh
                  (NewSuccessStats (GetLatency r) (since_ns reply_ok sdiv 1000)
                     (int (length (ClientRequest.Data request_insert)))
                     (sum_list (map Bytes (ClientRequest.Data request_insert)))))"
    and w1: "Stmt request_insert \<noteq> STAT_FILEDONE \<longrightarrow>
        worker_loop 2 0 ?s [request_insert] True =
          (case worker_loop 2 0 (?s\<lparr>replies := []\<rparr>) [] True of
             (w, s'', q', tr') \<Rightarrow>
               (w, s'', q', replicate 2 (Execute_call 0 (Stmt request_insert)) @ ev # tr'))"
    by blast
  from e1 ok rp sn dt have ev: "ev = Send_statsCh (NewSuccessStats 7 5 2 5)"
    by simp
  from th2 r2 bad obtain e where
    h2: "handle_request 2 0 ?t request_insert =
        (Returned (), ?t\<lparr>replies := [reply_ok]\<rparr>,
         replicate 1 (Execute_call 0 (Stmt request_insert)) @
         [Send_ErrCh (ErrCh request_insert)
            \<lparr>Error = Some e, Data = ClientRequest.Data request_insert\<rparr>])"
    by blast
  from h1 w1 ns ev h2 dt show ?thesis
    by (simp add: numeral_2_eq_2)
qed

lemma worker_loop_Stopped:
  "worker_loop p_retry i s q cl = (Stopped, s', q', tr) \<Longrightarrow> cl \<and> q' = []"
proof (induction q arbitrary: s s' q' tr)
  case Nil
  then show ?case by (auto split: if_splits)
next
  case (Cons d q)
  show ?case
  proof (cases "Stmt d = STAT_FILEDONE")
    case True
    with Cons.prems Cons.IH show ?thesis
      by (auto split: prod.splits)
  next
    case False
    obtain x s1 tr1 where h: "handle_request p_retry i s d = (x, s1, tr1)"
      by (cases "handle_request p_retry i s d")
    with Cons.prems Cons.IH False show ?thesis
      by (cases x) (auto split: prod.splits)
  qed
qed

text \<open>
  C3, as the code has it. On the sentinel the worker sends \<^verbatim>\<open>ErrData{Error: nil}\<close> on
  the request's error channel and then goes round its loop again (\<^verbatim>\<open>continue\<close>): it
  handles whatever is queued behind the sentinel. If the worker ends in \<open>Stopped\<close>,
  the queue had been closed and nothing is left in it.
\<close>

theorem sentinel_acknowledged_worker_continues:
  assumes "Stmt data = STAT_FILEDONE"
  shows "worker_loop p_retry i s (data # q) cl =
           (case worker_loop p_retry i s q cl of
              (w, s', q', tr) \<Rightarrow>
                (w, s', q', Send_ErrCh (ErrCh data) \<lparr>Error = None, Data = []\<rparr> # tr))
       \<and> (\<forall>s' q' tr. worker_loop p_retry i s (data # q) cl = (Stopped, s', q', tr) \<longrightarrow>
              cl \<and> q' = [])"
  using assms worker_loop_Stopped [of p_retry i s "data # q" cl] by auto

text \<open>
  A queue holding only the sentinel: the worker acknowledges it, and then waits on the
  open queue, or stops on the closed one.
\<close>

theorem sentinel_acknowledged_worker_continues_witness:
  "worker_loop 2 0 \<lparr>replies = [reply_ok]\<rparr> [request_done] False =
     (Idle, \<lparr>replies = [reply_ok]\<rparr>, [], [Send_ErrCh 9 \<lparr>Error = None, Data = []\<rparr>])
   \<and> worker_loop 2 0 \<lparr>replies = [reply_ok]\<rparr> [request_done] True =
     (Stopped, \<lparr>replies = [reply_ok]\<rparr>, [], [Send_ErrCh 9 \<lparr>Error = None, Data = []\<rparr>])"
proof -
  have h: "Stmt request_done = STAT_FILEDONE" by (simp add: request_done_def)
  from sentinel_acknowledged_worker_continues [OF h, of 2 0 "\<lparr>replies = [reply_ok]\<rparr>" "[]" False]
    sentinel_acknowledged_worker_continues [OF h, of 2 0 "\<lparr>replies = [reply_ok]\<rparr>" "[]" True]
  show ?thesis by (simp add: request_done_def)
qed

text \<open>
  C3 as stated fails: with a request queued behind the sentinel, the worker
  acknowledges the sentinel and then executes that request and reports its success;
  the queue is left empty. On an open queue it then waits for more (\<open>Idle\<close>).
\<close>

theorem sentinel_stops_worker_counterexample:
  "Stmt request_done = STAT_FILEDONE
   \<and> worker_loop 2 0 \<lparr>replies = [reply_ok]\<rparr> [request_done, request_insert] True =
       (Stopped, \<lparr>replies = []\<rparr>, [],
        [Send_ErrCh 9 \<lparr>Error = None, Data = []\<rparr>,
         Execute_call 0 (Stmt request_insert),
         Send_statsCh (NewSuccessStats 7 5 2 5)])
   \<and> worker_loop 2 0 \<lparr>replies = [reply_ok]\<rparr> [request_done, request_insert] False =
       (Idle, \<lparr>replies = []\<rparr>, [],
        [Send_ErrCh 9 \<lparr>Error = None, Data = []\<rparr>,
         Execute_call 0 (Stmt request_insert),
         Send_statsCh (NewSuccessStats 7 5 2 5)])"
  by (simp add: request_done_def request_insert_def STAT_FILEDONE_def handle_request_def
      reply_ok_def operation_def IsSucceed_def importedBytes_def)







subsection \<open>\<^verbatim>\<open>exec\<close> and \<^verbatim>\<open>Close\<close>\<close>

text \<open>
  C10. For every index \<open>i\<close>, in range or not, \<^verbatim>\<open>exec(i, "")\<close> returns nil, makes no
  \<^verbatim>\<open>Execute\<close> call (the trace is empty) and leaves the pool, sessions included, as it
  was. So the pre-stop step of \<^verbatim>\<open>Close\<close> with an empty command text does nothing.
\<close>

theorem exec_empty_statement_is_noop:
  "exec p i [] = (Returned None, p, [])
   \<and> preStop_step (p\<lparr>preStop := Some \<lparr>NebulaPreStop.Commands = Some []\<rparr>\<rparr>) =
       (Returned None, p\<lparr>preStop := Some \<lparr>NebulaPreStop.Commands = Some []\<rparr>\<rparr>, [])"
  by (simp add: exec_def preStop_step_def Let_def)

theorem exec_empty_statement_is_noop_witness:
  "exec pool2 7 [] = (Returned None, pool2, [])
   \<and> exec pool2 (- 1) [] = (Returned None, pool2, [])"
  using exec_empty_statement_is_noop [of pool2 7] exec_empty_statement_is_noop [of pool2 "- 1"]
  by simp

declare Close_loop.simps [simp del]

lemma Close_loop_run:
  assumes "concurrency p = int (length (Sessions p))"
    and "length (requestChs p) = length (Sessions p)"
    and "\<forall>j. i \<le> j \<and> j < length (requestChs p) \<longrightarrow> is_open (requestChs p ! j)"
    and "i \<le> length (Sessions p)"
  shows "Close_loop p (int i) =
           (Returned (),
            p\<lparr>requestChs := take i (requestChs p) @ map close_chan (drop i (requestChs p))\<rparr>,
            concat (map (slot_events p) [i..<length (Sessions p)]))"
  using assms
proof (induction "length (Sessions p) - i" arbitrary: p i)
  case 0
  then have "i = length (Sessions p)" by simp
  with "0.prems" show ?case
    by (subst Close_loop.simps) simp
next
  case (Suc d)
  let ?n = "length (Sessions p)"
  let ?rq = "requestChs p"
  from Suc.hyps(2) have lt: "i < ?n" by simp
  then have lt': "i < length ?rq" using Suc.prems(2) by simp
  have cond: "int i < concurrency p" "\<not> (int i < 0 \<or> int ?n \<le> int i)" "\<not> int (length ?rq) \<le> int i"
    using lt lt' Suc.prems(1) by simp_all
  have upt: "[i..<?n] = i # [Suc i..<?n]" using lt by (simp add: upt_conv_Cons)
  have dr: "drop i ?rq = ?rq ! i # drop (Suc i) ?rq"
    using lt' by (simp add: Cons_nth_drop_Suc)
  have opn: "is_open (?rq ! i)" using Suc.prems(3) lt' by simp
  show ?case
  proof (cases "?rq ! i")
    case None
    have ih: "Close_loop p (int (Suc i)) =
           (Returned (),
            p\<lparr>requestChs := take (Suc i) ?rq @ map close_chan (drop (Suc i) ?rq)\<rparr>,
            concat (map (slot_events p) [Suc i..<?n]))"
      using Suc.hyps(2) Suc.prems lt by (intro Suc.hyps(1)) auto
    have tk: "take (Suc i) ?rq = take i ?rq @ [None]"
      using lt' None by (simp add: take_Suc_conv_app_nth)
    have "Close_loop p (int i) =
        (case Close_loop p (int i + 1) of
           (r, p', tr) \<Rightarrow>
             (r, p', (case Sessions p ! i of Some s \<Rightarrow> [Release_call (int i)] | None \<Rightarrow> []) @ tr))"
      using cond None by (subst Close_loop.simps) (simp add: Let_def)
    also have "int i + 1 = int (Suc i)" by simp
    finally show ?thesis
      using ih None by (simp add: upt dr tk slot_events_def close_chan_def)
  next
    case (Some ch)
    let ?p' = "p\<lparr>requestChs := ?rq[i := Some (ch\<lparr>is_closed := True\<rparr>)]\<rparr>"
    have noc: "\<not> is_closed ch" using opn Some by (simp add: is_open_def)
    have ih: "Close_loop ?p' (int (Suc i)) =
           (Returned (),
            ?p'\<lparr>requestChs := take (Suc i) (requestChs ?p') @
                               map close_chan (drop (Suc i) (requestChs ?p'))\<rparr>,
            concat (map (slot_events ?p') [Suc i..<length (Sessions ?p')]))"
      using Suc.hyps(2) Suc.prems lt by (intro Suc.hyps(1)) auto
    have ev: "map (slot_events ?p') [Suc i..<?n] = map (slot_events p) [Suc i..<?n]"
      by (rule map_cong) (auto simp: slot_events_def)
    have tk: "take (Suc i) (?rq[i := Some (ch\<lparr>is_closed := True\<rparr>)]) =
        take i ?rq @ [Some (ch\<lparr>is_closed := True\<rparr>)]"
      using lt' by (simp add: take_Suc_conv_app_nth)
    have "Close_loop p (int i) =
        (case Close_loop ?p' (int i + 1) of
           (r, p', tr) \<Rightarrow>
             (r, p', (case Sessions p ! i of Some s \<Rightarrow> [Release_call (int i)] | None \<Rightarrow> []) @
                     close_call (int i) # tr))"
      using cond Some noc by (subst Close_loop.simps) (simp add: Let_def)
    also have "int i + 1 = int (Suc i)" by simp
    finally show ?thesis
      using ih Some ev by (simp add: upt dr tk slot_events_def close_chan_def)
  qed
qed


lemma exec_frame:
  assumes "exec p i stmt = (x, p', tr)"
  shows "requestChs p' = requestChs p \<and> concurrency p' = concurrency p
       \<and> length (Sessions p') = length (Sessions p)
       \<and> (\<forall>j < length (Sessions p). (Sessions p' ! j = None) = (Sessions p ! j = None))"
  using assms
  by (auto simp: exec_def Let_def nth_list_update split: if_splits option.splits list.splits)

lemma preStop_step_frame:
  assumes "preStop_step p = (x, p', tr)"
  shows "requestChs p' = requestChs p \<and> concurrency p' = concurrency p
       \<and> length (Sessions p') = length (Sessions p)
       \<and> (\<forall>j < length (Sessions p). (Sessions p' ! j = None) = (Sessions p ! j = None))"
proof (cases "\<exists>ps cmds. preStop p = Some ps \<and> NebulaPreStop.Commands ps = Some cmds
                \<and> getActiveConnIdx p \<noteq> - 1")
  case True
  then obtain ps cmds where "preStop p = Some ps" "NebulaPreStop.Commands ps = Some cmds"
    "getActiveConnIdx p \<noteq> - 1" by blast
  with assms have "exec p (getActiveConnIdx p) cmds = (x, p', tr)"
    by (simp add: preStop_step_def Let_def)
  then show ?thesis by (rule exec_frame)
next
  case False
  with assms have "p' = p"
    by (auto simp: preStop_step_def Let_def split: option.splits if_splits)
  then show ?thesis by simp
qed

text \<open>
  C8, as the code has it. Take a pool with \<^verbatim>\<open>len(Sessions) == len(requestChs) ==
  concurrency\<close> none of whose queues is closed yet, and let the pre-stop step return
  (with an error or without). Then \<^verbatim>\<open>Close\<close> returns. Its trace is the pre-stop
  step's, a log line if that step failed, then slot by slot in index order the release
  of the session (if not nil) followed by the close of the queue (if not nil), and last
  the close of the connection pool. Afterwards every queue is closed. The releases
  and the closes alternate: queue \<open>j\<close> is closed before session \<open>j + 1\<close> is released.
\<close>

theorem Close_runs_to_completion:
  assumes "concurrency p = int (length (Sessions p))"
    and "length (requestChs p) = length (Sessions p)"
    and "list_all is_open (requestChs p)"
    and "preStop_step p = (Returned e, p1, tr1)"
  shows "Close p =
           (Returned (), p1\<lparr>requestChs := map close_chan (requestChs p)\<rparr>,
            tr1 @ (case e of Some er \<Rightarrow> [Log_error er] | None \<Rightarrow> []) @
            concat (map (slot_events p) [0..<length (Sessions p)]) @ [pool_Close])"
proof -
  note fr = preStop_step_frame [OF assms(4)]
  have opn: "\<forall>j. 0 \<le> j \<and> j < length (requestChs p1) \<longrightarrow> is_open (requestChs p1 ! j)"
    using assms(3) fr by (simp add: list_all_length)
  have ev: "map (slot_events p1) [0..<length (Sessions p1)] =
      map (slot_events p) [0..<length (Sessions p)]"
  proof (rule map_cong)
    show "[0..<length (Sessions p1)] = [0..<length (Sessions p)]" using fr by simp
  next
    fix j assume "j \<in> set [0..<length (Sessions p)]"
    then have "j < length (Sessions p)" by simp
    with fr have "(Sessions p1 ! j = None) = (Sessions p ! j = None)" by blast
    then show "slot_events p1 j = slot_events p j"
      using fr by (auto simp: slot_events_def split: option.splits)
  qed
  have "Close_loop p1 (int 0) =
           (Returned (),
            p1\<lparr>requestChs := take 0 (requestChs p1) @ map close_chan (drop 0 (requestChs p1))\<rparr>,
            concat (map (slot_events p1) [0..<length (Sessions p1)]))"
    using assms(1,2) fr opn by (intro Close_loop_run) auto
  then have "Close_loop p1 (int 0) =
           (Returned (),
            p1\<lparr>requestChs := take 0 (requestChs p1) @ map close_chan (drop 0 (requestChs p1))\<rparr>,
            concat (map (slot_events p) [0..<length (Sessions p)]))"
    by (simp only: ev)
  moreover have "requestChs p1 = requestChs p" using fr by simp
  ultimately have "Close_loop p1 0 =
      (Returned (), p1\<lparr>requestChs := map close_chan (requestChs p)\<rparr>,
       concat (map (slot_events p) [0..<length (Sessions p)]))"
    by simp
  with assms(4) show ?thesis
    by (simp add: Close_def)
qed

text \<open>
  \<open>pool3\<close>: slot 0 has no session, and the pre-stop command fails on session 1 with a
  transport error. The error is logged and the shutdown goes on.
\<close>

theorem Close_runs_to_completion_witness:
  "Close pool3 =
     (Returned (),
      pool3\<lparr>Sessions := [None, Some \<lparr>replies = []\<rparr>],
             requestChs :=
               [Some \<lparr>cap = 8, buf = [request_insert, request_done], is_closed = True\<rparr>,
                Some \<lparr>cap = 8, buf = [request_insert], is_closed = True\<rparr>]\<rparr>,
      [Execute_call 1 ''DROP SPACE tmp;'',
       Log_error (Errorf_exec_error 1 ''DROP SPACE tmp;'' (LibError ''EOF'')),
       close_call 0, Release_call 1, close_call 1, pool_Close])"
proof -
  have h1: "concurrency pool3 = int (length (Sessions pool3))"
    by (simp add: pool3_def pool2_def)
  have h2: "length (requestChs pool3) = length (Sessions pool3)"
    by (simp add: pool3_def pool2_def)
  have h3: "list_all is_open (requestChs pool3)"
    by (simp add: pool3_def pool2_def is_open_def)
  have h4: "preStop_step pool3 =
      (Returned (Some (Errorf_exec_error 1 ''DROP SPACE tmp;'' (LibError ''EOF''))),
       pool3\<lparr>Sessions := [None, Some \<lparr>replies = []\<rparr>]\<rparr>,
       [Execute_call 1 ''DROP SPACE tmp;''])"
    by (simp add: pool3_def pool2_def preStop_step_def getActiveConnIdx_def exec_def
        reply_eof_def)
  have upt2: "[0..<2] = [0, Suc 0]" by (simp add: upt_conv_Cons)
  from Close_runs_to_completion [OF h1 h2 h3 h4]
  show ?thesis
    by (simp add: pool3_def pool2_def slot_events_def close_chan_def upt2)
qed

text \<open>
  C8 as stated fails in its order: on two slots queue 0 is closed before session 1 is
  released, so the releases do not all come before the closes. And \<^verbatim>\<open>Close\<close> does
  not always run to completion: called again on the pool it has closed, it panics on
  the first queue (close of a closed channel).
\<close>

theorem Close_phases_counterexample:
  "snd (snd (Close pool2)) =
     [Execute_call 0 ''DROP SPACE tmp;'',
      Release_call 0, close_call 0, Release_call 1, close_call 1, pool_Close]
   \<and> \<not> releases_before_closes (snd (snd (Close pool2)))
   \<and> fst (Close (fst (snd (Close pool2)))) = Panicked"
proof -
  let ?s1 = "[Some \<lparr>replies = [reply_ok]\<rparr>, Some \<lparr>replies = [reply_eof]\<rparr>]"
  let ?s2 = "[Some \<lparr>replies = []\<rparr>, Some \<lparr>replies = [reply_eof]\<rparr>]"
  let ?q = "[Some \<lparr>cap = 8, buf = [request_insert, request_done], is_closed = True\<rparr>,
             Some \<lparr>cap = 8, buf = [request_insert], is_closed = True\<rparr>]"
  have h4: "preStop_step pool2 =
      (Returned None, pool2\<lparr>Sessions := ?s1\<rparr>, [Execute_call 0 ''DROP SPACE tmp;''])"
    by (simp add: pool2_def preStop_step_def getActiveConnIdx_def exec_def
        reply_ok_def IsSucceed_def)
  have h5: "Close_loop (pool2\<lparr>Sessions := ?s1\<rparr>) 0 =
      (Returned (), pool2\<lparr>Sessions := ?s1, requestChs := ?q\<rparr>,
       [Release_call 0, close_call 0, Release_call 1, close_call 1])"
    by (simp add: Close_loop.simps pool2_def)
  have c1: "Close pool2 =
      (Returned (), pool2\<lparr>Sessions := ?s1, requestChs := ?q\<rparr>,
       [Execute_call 0 ''DROP SPACE tmp;'',
        Release_call 0, close_call 0, Release_call 1, close_call 1, pool_Close])"
    by (simp add: Close_def h4 h5)
  have h6: "preStop_step (pool2\<lparr>Sessions := ?s1, requestChs := ?q\<rparr>) =
      (Returned None, pool2\<lparr>Sessions := ?s2, requestChs := ?q\<rparr>,
       [Execute_call 0 ''DROP SPACE tmp;''])"
    by (simp add: pool2_def preStop_step_def getActiveConnIdx_def exec_def
        reply_ok_def IsSucceed_def)
  have h7: "Close_loop (pool2\<lparr>Sessions := ?s2, requestChs := ?q\<rparr>) 0 =
      (Panicked, pool2\<lparr>Sessions := ?s2, requestChs := ?q\<rparr>, [Release_call 0])"
    by (simp add: Close_loop.simps pool2_def)
  have c2: "fst (Close (pool2\<lparr>Sessions := ?s1, requestChs := ?q\<rparr>)) = Panicked"
    by (simp add: Close_def h6 h7)
  from c1 c2 show ?thesis by (simp add: releases_before_closes_def)
qed

subsection \<open>\<^verbatim>\<open>NewClientPool\<close>\<close>

declare acquire_inner.simps [simp del]
declare acquire_outer.simps [simp del]

lemma acquire_inner_ok:
  "acquire_inner env rt st pool j i = (Returned (Inr (pool', j')), tr) \<Longrightarrow>
     j' = j + nat (Concurrency st - i)
     \<and> length (Sessions pool') = length (Sessions pool)
     \<and> length (requestChs pool') = length (requestChs pool)
     \<and> concurrency pool' = concurrency pool
     \<and> (\<forall>m<j. Sessions pool' ! m = Sessions pool ! m \<and> requestChs pool' ! m = requestChs pool ! m)
     \<and> (\<forall>m. j \<le> m \<and> m < j' \<longrightarrow>
           m < length (Sessions pool) \<and> m < length (requestChs pool)
           \<and> Sessions pool' ! m \<noteq> None \<and> requestChs pool' ! m = fresh_chan st)"
proof (induction env rt st pool j i arbitrary: tr rule: acquire_inner.induct)
  case (1 env rt st pool j i)
  show ?case
  proof (cases "i < Concurrency st")
    case False
    with "1.prems" show ?thesis
      by (subst (asm) acquire_inner.simps) auto
  next
    case True
    let ?upd = "\<lambda>s. pool\<lparr>Sessions := (Sessions pool)[j := Some s],
                         requestChs := (requestChs pool)
                           [j := Some \<lparr>cap = ChannelBufferSize st, buf = [],
                                      is_closed = False\<rparr>]\<rparr>"
    from "1.prems" True obtain s tr' where
      gs: "GetSession env j (User st) (Password st) = Inr s"
      and b1: "\<not> length (Sessions pool) \<le> j"
      and b2: "\<not> (ChannelBufferSize st < 0 \<or> maxChanCap rt < ChannelBufferSize st
                \<or> length (requestChs pool) \<le> j)"
      and rec: "acquire_inner env rt st (?upd s) (Suc j) (i + 1) = (Returned (Inr (pool', j')), tr')"
      by (subst (asm) acquire_inner.simps)
        (auto split: sum.splits if_splits prod.splits)
    note ih = "1.IH" [OF True gs b1 b2 rec]
    from ih have j': "j' = j + nat (Concurrency st - i)" using True by auto
    moreover from ih have "length (Sessions pool') = length (Sessions pool)"
      "length (requestChs pool') = length (requestChs pool)" "concurrency pool' = concurrency pool"
      by simp_all
    moreover have "\<forall>m<j. Sessions pool' ! m = Sessions pool ! m \<and>
        requestChs pool' ! m = requestChs pool ! m"
      using ih by auto
    moreover have "\<forall>m. j \<le> m \<and> m < j' \<longrightarrow>
           m < length (Sessions pool) \<and> m < length (requestChs pool)
           \<and> Sessions pool' ! m \<noteq> None \<and> requestChs pool' ! m = fresh_chan st"
    proof (intro allI impI)
      fix m assume m: "j \<le> m \<and> m < j'"
      show "m < length (Sessions pool) \<and> m < length (requestChs pool)
           \<and> Sessions pool' ! m \<noteq> None \<and> requestChs pool' ! m = fresh_chan st"
      proof (cases "m = j")
        case True
        with ih b1 b2 show ?thesis by (auto simp: fresh_chan_def)
      next
        case False
        with m have "Suc j \<le> m \<and> m < j'" by simp
        with ih show ?thesis by auto
      qed
    qed
    ultimately show ?thesis by blast
  qed
qed

lemma acquire_inner_fail:
  "acquire_inner env rt st pool j i = (r, tr) \<Longrightarrow>
     j + nat (Concurrency st - i) \<le> length (Sessions pool) \<Longrightarrow>
     GetSession_call (Some e) \<in> set tr \<Longrightarrow> r = Returned (Inl e)"
proof (induction env rt st pool j i arbitrary: r tr rule: acquire_inner.induct)
  case (1 env rt st pool j i)
  show ?case
  proof (cases "i < Concurrency st")
    case False
    with "1.prems" show ?thesis
      by (subst (asm) acquire_inner.simps) simp
  next
    case True
    then have jl: "\<not> length (Sessions pool) \<le> j" using "1.prems"(2) by auto
    show ?thesis
    proof (cases "GetSession env j (User st) (Password st)")
      case (Inl e')
      with "1.prems" True jl show ?thesis
        by (subst (asm) acquire_inner.simps) auto
    next
      case (Inr s)
      let ?upd = "pool\<lparr>Sessions := (Sessions pool)[j := Some s],
                         requestChs := (requestChs pool)
                           [j := Some \<lparr>cap = ChannelBufferSize st, buf = [],
                                      is_closed = False\<rparr>]\<rparr>"
      show ?thesis
      proof (cases "ChannelBufferSize st < 0 \<or> maxChanCap rt < ChannelBufferSize st
                     \<or> length (requestChs pool) \<le> j")
        case True
        with "1.prems" \<open>i < Concurrency st\<close> Inr jl show ?thesis
          by (subst (asm) acquire_inner.simps) auto
      next
        case False
        obtain r' tr' where rec: "acquire_inner env rt st ?upd (Suc j) (i + 1) = (r', tr')"
          by (cases "acquire_inner env rt st ?upd (Suc j) (i + 1)")
        with "1.prems"(1) \<open>i < Concurrency st\<close> Inr jl False
        have r: "r = r'" and tr: "tr = GetSession_call None # tr'"
          by (subst (asm) acquire_inner.simps, simp)+
        have le: "Suc j + nat (Concurrency st - (i + 1)) \<le> length (Sessions ?upd)"
          using "1.prems"(2) \<open>i < Concurrency st\<close> by auto
        have "GetSession_call (Some e) \<in> set tr'" using "1.prems"(3) tr by simp
        from "1.IH" [OF \<open>i < Concurrency st\<close> Inr jl False rec le this] r
        show ?thesis by simp
      qed
    qed
  qed
qed


lemma acquire_outer_ok:
  "acquire_outer env rt st n pool j k = (Returned (Inr pool'), tr) \<Longrightarrow> 0 \<le> k \<Longrightarrow>
     length (Sessions pool') = length (Sessions pool)
     \<and> length (requestChs pool') = length (requestChs pool)
     \<and> concurrency pool' = concurrency pool
     \<and> (\<forall>m<j. Sessions pool' ! m = Sessions pool ! m \<and> requestChs pool' ! m = requestChs pool ! m)
     \<and> (\<forall>m. j \<le> m \<and> m < j + nat (int n - k) * nat (Concurrency st) \<longrightarrow>
           m < length (Sessions pool) \<and> m < length (requestChs pool)
           \<and> Sessions pool' ! m \<noteq> None \<and> requestChs pool' ! m = fresh_chan st)"
proof (induction env rt st n pool j k arbitrary: tr rule: acquire_outer.induct)
  case (1 env rt st n pool j k)
  show ?case
  proof (cases "k < int n")
    case False
    with "1.prems" show ?thesis
      by (subst (asm) acquire_outer.simps) auto
  next
    case True
    from "1.prems"(1) True obtain pool1 j1 tr1 tr2 where
      inner: "acquire_inner env rt st pool j 0 = (Returned (Inr (pool1, j1)), tr1)"
      and rec: "acquire_outer env rt st n pool1 j1 (k + 1) = (Returned (Inr pool'), tr2)"
      by (subst (asm) acquire_outer.simps)
        (auto split: prod.splits outcome.splits sum.splits)
    note io = acquire_inner_ok [OF inner]
    have k1: "0 \<le> k + 1" using "1.prems"(2) by simp
    have ih: "length (Sessions pool') = length (Sessions pool1)
     \<and> length (requestChs pool') = length (requestChs pool1)
     \<and> concurrency pool' = concurrency pool1
     \<and> (\<forall>m<j1. Sessions pool' ! m = Sessions pool1 ! m \<and> requestChs pool' ! m = requestChs pool1 ! m)
     \<and> (\<forall>m. j1 \<le> m \<and> m < j1 + nat (int n - (k + 1)) * nat (Concurrency st) \<longrightarrow>
           m < length (Sessions pool1) \<and> m < length (requestChs pool1)
           \<and> Sessions pool' ! m \<noteq> None \<and> requestChs pool' ! m = fresh_chan st)"
      using "1.IH" True inner rec k1 by simp
    have j1: "j1 = j + nat (Concurrency st)" using io by simp
    have split: "j + nat (int n - k) * nat (Concurrency st) =
        j1 + nat (int n - (k + 1)) * nat (Concurrency st)"
    proof -
      have "nat (int n - k) = Suc (nat (int n - (k + 1)))" using True by auto
      then show ?thesis using j1 by simp
    qed
    have "\<forall>m. j \<le> m \<and> m < j + nat (int n - k) * nat (Concurrency st) \<longrightarrow>
           m < length (Sessions pool) \<and> m < length (requestChs pool)
           \<and> Sessions pool' ! m \<noteq> None \<and> requestChs pool' ! m = fresh_chan st"
    proof (intro allI impI)
      fix m assume m: "j \<le> m \<and> m < j + nat (int n - k) * nat (Concurrency st)"
      show "m < length (Sessions pool) \<and> m < length (requestChs pool)
           \<and> Sessions pool' ! m \<noteq> None \<and> requestChs pool' ! m = fresh_chan st"
      proof (cases "m < j1")
        case True
        with m io ih show ?thesis by auto
      next
        case False
        with m split have "j1 \<le> m \<and> m < j1 + nat (int n - (k + 1)) * nat (Concurrency st)"
          by simp
        with ih io show ?thesis by auto
      qed
    qed
    moreover have "\<forall>m<j. Sessions pool' ! m = Sessions pool ! m \<and>
        requestChs pool' ! m = requestChs pool ! m"
      using io ih j1 by auto
    ultimately show ?thesis using io ih by auto
  qed
qed


lemma acquire_outer_fail:
  "acquire_outer env rt st n pool j k = (r, tr) \<Longrightarrow> 0 \<le> k \<Longrightarrow>
     j + nat (int n - k) * nat (Concurrency st) \<le> length (Sessions pool) \<Longrightarrow>
     GetSession_call (Some e) \<in> set tr \<Longrightarrow> r = Returned (Inl e)"
proof (induction env rt st n pool j k arbitrary: r tr rule: acquire_outer.induct)
  case (1 env rt st n pool j k)
  show ?case
  proof (cases "k < int n")
    case False
    with "1.prems" show ?thesis
      by (subst (asm) acquire_outer.simps) auto
  next
    case True
    then have suc: "nat (int n - k) = Suc (nat (int n - (k + 1)))" by auto
    obtain r1 tr1 where inner: "acquire_inner env rt st pool j 0 = (r1, tr1)"
      by (cases "acquire_inner env rt st pool j 0")
    have le1: "j + nat (Concurrency st - 0) \<le> length (Sessions pool)"
      using "1.prems"(3) suc by simp
    note fail1 = acquire_inner_fail [OF inner le1]
    show ?thesis
    proof (cases "\<exists>pool1 j1. r1 = Returned (Inr (pool1, j1))")
      case False
      with "1.prems"(1) True inner have "r = (case r1 of Returned (Inl e') \<Rightarrow> Returned (Inl e')
          | Panicked \<Rightarrow> Panicked | Hung \<Rightarrow> Hung | _ \<Rightarrow> r)" and "tr = tr1"
        by (subst (asm) acquire_outer.simps, auto split: outcome.splits sum.splits)+
      with fail1 "1.prems"(4) show ?thesis by auto
    next
      case True
      then obtain pool1 j1 where r1: "r1 = Returned (Inr (pool1, j1))" by blast
      obtain r2 tr2 where rec: "acquire_outer env rt st n pool1 j1 (k + 1) = (r2, tr2)"
        by (cases "acquire_outer env rt st n pool1 j1 (k + 1)")
      from "1.prems"(1) \<open>k < int n\<close> inner r1 rec have r: "r = r2" and tr: "tr = tr1 @ tr2"
        by (subst (asm) acquire_outer.simps, simp)+
      have "GetSession_call (Some e) \<notin> set tr1" using fail1 r1 by auto
      with "1.prems"(4) tr have in2: "GetSession_call (Some e) \<in> set tr2" by simp
      note io = acquire_inner_ok [OF inner [unfolded r1]]
      have le2: "j1 + nat (int n - (k + 1)) * nat (Concurrency st) \<le> length (Sessions pool1)"
        using "1.prems"(3) suc io by simp
      have k1: "0 \<le> k + 1" using "1.prems"(2) by simp
      from "1.IH" \<open>k < int n\<close> inner r1 rec k1 le2 in2 have "r2 = Returned (Inl e)" by simp
      with r show ?thesis by simp
    qed
  qed
qed

lemma Split_not_Nil: "Split s sep \<noteq> []"
  by (induction s) (auto split: list.splits)

lemma parse_addrs_malformed:
  "list_ex malformed_address addrs \<Longrightarrow> \<exists>e. parse_addrs addrs hosts = Inl e"
proof (induction addrs arbitrary: hosts)
  case Nil
  then show ?case by simp
next
  case (Cons addr rest)
  show ?case
  proof (cases "malformed_address addr")
    case True
    then show ?thesis
      by (auto simp: malformed_address_def Let_def)
  next
    case False
    with Cons.prems have "list_ex malformed_address rest" by simp
    from Cons.IH [OF this] False show ?thesis
      by (auto simp: malformed_address_def Let_def split: option.splits)
  qed
qed

lemma acquire_inner_fail_or_panic:
  "acquire_inner env rt st pool j i = (r, tr) \<Longrightarrow>
     GetSession_call (Some e) \<in> set tr \<Longrightarrow> r = Returned (Inl e) \<or> r = Panicked"
proof (induction env rt st pool j i arbitrary: r tr rule: acquire_inner.induct)
  case (1 env rt st pool j i)
  show ?case
  proof (cases "i < Concurrency st")
    case False
    with "1.prems" show ?thesis
      by (subst (asm) acquire_inner.simps) simp
  next
    case True
    show ?thesis
    proof (cases "GetSession env j (User st) (Password st)")
      case (Inl e')
      with "1.prems" True show ?thesis
        by (subst (asm) acquire_inner.simps) (auto split: if_splits)
    next
      case (Inr s)
      let ?upd = "pool\<lparr>Sessions := (Sessions pool)[j := Some s],
                         requestChs := (requestChs pool)
                           [j := Some \<lparr>cap = ChannelBufferSize st, buf = [],
                                      is_closed = False\<rparr>]\<rparr>"
      show ?thesis
      proof (cases "length (Sessions pool) \<le> j \<or> ChannelBufferSize st < 0
                     \<or> maxChanCap rt < ChannelBufferSize st
                     \<or> length (requestChs pool) \<le> j")
        case True
        with "1.prems" \<open>i < Concurrency st\<close> Inr show ?thesis
          by (subst (asm) acquire_inner.simps) (auto split: if_splits)
      next
        case False
        then have jl: "\<not> length (Sessions pool) \<le> j"
          and b2: "\<not> (ChannelBufferSize st < 0 \<or> maxChanCap rt < ChannelBufferSize st
                \<or> length (requestChs pool) \<le> j)"
          by auto
        obtain r' tr' where rec: "acquire_inner env rt st ?upd (Suc j) (i + 1) = (r', tr')"
          by (cases "acquire_inner env rt st ?upd (Suc j) (i + 1)")
        with "1.prems"(1) \<open>i < Concurrency st\<close> Inr jl b2
        have r: "r = r'" and tr: "tr = GetSession_call None # tr'"
          by (subst (asm) acquire_inner.simps, simp)+
        have "GetSession_call (Some e) \<in> set tr'" using "1.prems"(2) tr by simp
        from "1.IH" [OF \<open>i < Concurrency st\<close> Inr jl b2 rec this] r
        show ?thesis by simp
      qed
    qed
  qed
qed

lemma acquire_outer_fail_or_panic:
  "acquire_outer env rt st n pool j k = (r, tr) \<Longrightarrow>
     GetSession_call (Some e) \<in> set tr \<Longrightarrow> r = Returned (Inl e) \<or> r = Panicked"
proof (induction env rt st n pool j k arbitrary: r tr rule: acquire_outer.induct)
  case (1 env rt st n pool j k)
  show ?case
  proof (cases "k < int n")
    case False
    with "1.prems" show ?thesis
      by (subst (asm) acquire_outer.simps) auto
  next
    case True
    obtain r1 tr1 where inner: "acquire_inner env rt st pool j 0 = (r1, tr1)"
      by (cases "acquire_inner env rt st pool j 0")
    note fail1 = acquire_inner_fail_or_panic [OF inner]
    show ?thesis
    proof (cases "\<exists>pool1 j1. r1 = Returned (Inr (pool1, j1))")
      case False
      with "1.prems"(1) True inner have "r = (case r1 of Returned (Inl e') \<Rightarrow> Returned (Inl e')
          | Panicked \<Rightarrow> Panicked | Hung \<Rightarrow> Hung | _ \<Rightarrow> r)" and "tr = tr1"
        by (subst (asm) acquire_outer.simps, auto split: outcome.splits sum.splits)+
      then have rr: "r = (case r1 of Returned (Inl e') \<Rightarrow> Returned (Inl e')
          | Panicked \<Rightarrow> Panicked | Hung \<Rightarrow> Hung | _ \<Rightarrow> r)" and tt: "tr = tr1"
        by simp_all
      from fail1 [of e] "1.prems"(2) tt have "r1 = Returned (Inl e) \<or> r1 = Panicked"
        by simp
      then show ?thesis using rr by auto
    next
      case True
      then obtain pool1 j1 where r1: "r1 = Returned (Inr (pool1, j1))" by blast
      obtain r2 tr2 where rec: "acquire_outer env rt st n pool1 j1 (k + 1) = (r2, tr2)"
        by (cases "acquire_outer env rt st n pool1 j1 (k + 1)")
      from "1.prems"(1) \<open>k < int n\<close> inner r1 rec have r: "r = r2" and tr: "tr = tr1 @ tr2"
        by (subst (asm) acquire_outer.simps, simp)+
      have "GetSession_call (Some e) \<notin> set tr1" using fail1 r1 by auto
      with "1.prems"(2) tr have in2: "GetSession_call (Some e) \<in> set tr2" by simp
      from "1.IH" \<open>k < int n\<close> inner r1 rec in2 have "r2 = Returned (Inl e) \<or> r2 = Panicked"
        by simp
      with r show ?thesis by simp
    qed
  qed
qed

lemma int64_wrap_id: "- (2 ^ 63) \<le> x \<Longrightarrow> x < 2 ^ 63 \<Longrightarrow> int64_wrap x = x"
  by (simp add: int64_wrap_def)

lemma int64_wrap_less: "int64_wrap x < 2 ^ 63"
proof -
  have "(x + 2 ^ 63) mod 2 ^ 64 < (2 ^ 64 :: int)" by simp
  then show ?thesis by (simp add: int64_wrap_def)
qed

text \<open>
  C6, as the code has it. The product is Go's, and a negative one can wrap to a valid
  length. So let the per-endpoint concurrency times the number of entries of the
  address list be no less than \<open>-2^63\<close>, which every concurrency that is not negative
  gives. When \<^verbatim>\<open>NewClientPool\<close> then returns a pool, its \<^verbatim>\<open>concurrency\<close> is that
  product, without wrap-around, \<^verbatim>\<open>Sessions\<close> and \<^verbatim>\<open>requestChs\<close> both have that
  length, every slot of \<^verbatim>\<open>Sessions\<close> holds a session, and every slot of
  \<^verbatim>\<open>requestChs\<close> holds a queue of its own, empty, open and of the configured
  capacity. For the address list "h1:9669,h2:9669" and a per-endpoint concurrency of
  1 that is 2 sessions and 2 queues.
\<close>

theorem NewClientPool_sessions_and_queues:
  assumes "NewClientPool env rt st = (Returned (Inr pool), tr)"
    and "- (2 ^ 63) \<le> Concurrency st * int (length (Split (Address st) CHR '',''))"
  shows "concurrency pool = Concurrency st * int (length (Split (Address st) CHR '',''))
       \<and> int (length (Sessions pool)) = concurrency pool
       \<and> int (length (requestChs pool)) = concurrency pool
       \<and> list_all (\<lambda>s. s \<noteq> None) (Sessions pool)
       \<and> requestChs pool = replicate (length (requestChs pool)) (fresh_chan st)
       \<and> (Address st = ''h1:9669,h2:9669'' \<and> Concurrency st = 1 \<longrightarrow>
            length (Sessions pool) = 2 \<and> length (requestChs pool) = 2)"
proof -
  let ?addrs = "Split (Address st) CHR '',''"
  let ?n = "length ?addrs"
  let ?c = "int64_wrap (Concurrency st * int ?n)"
  let ?pool0 = "\<lparr>retry = Retry st, concurrency = ?c, space = Space st,
                 postStart = PostStart st, preStop = PreStop st,
                 Sessions = replicate (nat ?c) None,
                 requestChs = replicate (nat ?c) None\<rparr>"
  have n: "0 < ?n" using Split_not_Nil [of "Address st" "CHR '',''"] by simp
  from assms(1) have c0: "0 \<le> ?c"
    and run: "acquire_outer env rt st ?n ?pool0 0 0 = (Returned (Inr pool), tr)"
    by (auto simp: NewClientPool_def Let_def split: sum.splits option.splits if_splits)
  have C0: "0 \<le> Concurrency st"
  proof (rule ccontr)
    assume "\<not> 0 \<le> Concurrency st"
    then have neg: "Concurrency st * int ?n < 0" using n by (simp add: mult_neg_pos)
    then have "Concurrency st * int ?n < 2 ^ 63" by simp
    with assms(2) have "?c = Concurrency st * int ?n" by (simp add: int64_wrap_id)
    with neg c0 show False by simp
  qed
  note oo = acquire_outer_ok [OF run, simplified]
  have fit: "?n * nat (Concurrency st) \<le> nat ?c"
  proof (rule ccontr)
    assume "\<not> ?n * nat (Concurrency st) \<le> nat ?c"
    then have "nat ?c < ?n * nat (Concurrency st)" by simp
    with oo have "nat ?c < nat ?c" by auto
    then show False by simp
  qed
  have prod: "Concurrency st * int ?n = int (?n * nat (Concurrency st))"
    using C0 by (simp add: mult.commute)
  have "Concurrency st * int ?n \<le> ?c"
    using fit c0 unfolding prod by linarith
  moreover have "?c < 2 ^ 63" by (rule int64_wrap_less)
  ultimately have small: "Concurrency st * int ?n < 2 ^ 63" by linarith
  have cw: "?c = Concurrency st * int ?n"
    using assms(2) small by (simp add: int64_wrap_id)
  have "?c = int (?n * nat (Concurrency st))"
    using cw prod by (rule trans)
  then have total: "?n * nat (Concurrency st) = nat ?c"
    by (metis nat_int)
  have len: "length (Sessions pool) = nat ?c" "length (requestChs pool) = nat ?c"
    and conc: "concurrency pool = ?c"
    using oo by simp_all
  have slots: "\<forall>m < nat ?c. Sessions pool ! m \<noteq> None \<and> requestChs pool ! m = fresh_chan st"
    using oo total by auto
  have s: "list_all (\<lambda>s. s \<noteq> None) (Sessions pool)"
    using slots len by (simp add: list_all_length)
  have q: "requestChs pool = replicate (length (requestChs pool)) (fresh_chan st)"
    using slots len by (intro nth_equalityI) simp_all
  have two: "Split ''h1:9669,h2:9669'' CHR '','' = [''h1:9669'', ''h2:9669'']"
    by simp
  have sc: "Address st = ''h1:9669,h2:9669'' \<and> Concurrency st = 1 \<longrightarrow>
            length (Sessions pool) = 2 \<and> length (requestChs pool) = 2"
    using len cw two by (simp del: Split.simps)
  from conc len c0 cw s q sc show ?thesis by simp
qed

text \<open>The scenario, on a cluster that accepts every connection and login.\<close>

theorem NewClientPool_sessions_and_queues_witness:
  "NewClientPool cluster_up runtime_linux settings2 =
     (Returned (Inr \<lparr>retry = 2, concurrency = 2, space = ''basketball'', postStart = None,
                     preStop = None,
                     Sessions = [Some \<lparr>replies = []\<rparr>, Some \<lparr>replies = []\<rparr>],
                     requestChs =
                       [Some \<lparr>cap = 8, buf = [], is_closed = False\<rparr>,
                        Some \<lparr>cap = 8, buf = [], is_closed = False\<rparr>]\<rparr>),
      [GetSession_call None, GetSession_call None])"
proof -
  have dg: "digits_value ''9669'' 0 = Some 9669"
    by (simp add: digit_of_def)
  have at: "Atoi ''9669'' = Some 9669"
    by (simp add: Atoi_def dg Let_def del: digits_value.simps)
  have run: "NewClientPool cluster_up runtime_linux settings2 =
     (Returned (Inr \<lparr>retry = 2, concurrency = 2, space = ''basketball'', postStart = None,
                     preStop = None,
                     Sessions = [Some \<lparr>replies = []\<rparr>, Some \<lparr>replies = []\<rparr>],
                     requestChs =
                       [Some \<lparr>cap = 8, buf = [], is_closed = False\<rparr>,
                        Some \<lparr>cap = 8, buf = [], is_closed = False\<rparr>]\<rparr>),
      [GetSession_call None, GetSession_call None])"
    by (simp add: NewClientPool_def settings2_def cluster_up_def runtime_linux_def at Let_def
        int64_wrap_def acquire_outer.simps acquire_inner.simps numeral_2_eq_2)
  have h: "- (2 ^ 63) \<le>
      Concurrency settings2 * int (length (Split (Address settings2) CHR '',''))"
    by (simp add: settings2_def)
  from NewClientPool_sessions_and_queues [OF run h] run show ?thesis by simp
qed

text \<open>
  C6 as stated fails: with a per-endpoint concurrency of \<open>-(2^63 - 1)\<close> and two
  addresses the product wraps to 2, both slices are made with two nil slots, neither
  loop runs (\<open>i < Concurrency\<close> is false at once), and \<^verbatim>\<open>NewClientPool\<close> returns the
  pool: no slot holds a session or a queue, and \<^verbatim>\<open>concurrency\<close> is 2.
\<close>

theorem NewClientPool_nil_slots_counterexample:
  "NewClientPool cluster_up runtime_linux settings_negative =
     (Returned (Inr \<lparr>retry = 2, concurrency = 2, space = ''basketball'', postStart = None,
                     preStop = None, Sessions = [None, None],
                     requestChs = [None, None]\<rparr>), [])
   \<and> Concurrency settings_negative = - 9223372036854775807
   \<and> length (Split (Address settings_negative) CHR '','') = 2"
proof -
  have dg: "digits_value ''9669'' 0 = Some 9669"
    by (simp add: digit_of_def)
  have at: "Atoi ''9669'' = Some 9669"
    by (simp add: Atoi_def dg Let_def del: digits_value.simps)
  show ?thesis
    by (simp add: NewClientPool_def settings_negative_def settings2_def cluster_up_def
        runtime_linux_def at Let_def int64_wrap_def acquire_outer.simps acquire_inner.simps
        numeral_2_eq_2)
qed

text \<open>
  C7, as the code has it. If some entry of the address list is malformed,
  \<^verbatim>\<open>NewClientPool\<close> returns \<^verbatim>\<open>(nil, err)\<close> before it asks for any session. In every
  run in which a \<^verbatim>\<open>GetSession\<close> call fails no pool is returned either:
  \<^verbatim>\<open>NewClientPool\<close> returns \<^verbatim>\<open>(nil, err)\<close> with the error of that call, or it panics
  at the store into \<^verbatim>\<open>pool.Sessions\<close>. It returns the error whenever the per-endpoint
  concurrency times the number of entries is below \<open>2^63\<close>, that is, whenever the
  product does not wrap to a length shorter than the loops run.
\<close>

theorem NewClientPool_error_returns_no_pool:
  "(list_ex malformed_address (Split (Address st) CHR '','') \<longrightarrow>
      (\<exists>e. NewClientPool env rt st = (Returned (Inl e), [])))
   \<and> (\<forall>r tr e. NewClientPool env rt st = (r, tr) \<and> GetSession_call (Some e) \<in> set tr \<longrightarrow>
         (r = Returned (Inl e) \<or> r = Panicked)
         \<and> (Concurrency st * int (length (Split (Address st) CHR '','')) < 2 ^ 63 \<longrightarrow>
              r = Returned (Inl e)))"
proof (intro conjI impI allI)
  assume "list_ex malformed_address (Split (Address st) CHR '','')"
  from parse_addrs_malformed [OF this, of "[]"]
  show "\<exists>e. NewClientPool env rt st = (Returned (Inl e), [])"
    by (auto simp: NewClientPool_def Let_def)
next
  fix r tr e
  assume a: "NewClientPool env rt st = (r, tr) \<and> GetSession_call (Some e) \<in> set tr"
  let ?addrs = "Split (Address st) CHR '',''"
  let ?n = "length ?addrs"
  let ?c = "int64_wrap (Concurrency st * int ?n)"
  let ?pool0 = "\<lparr>retry = Retry st, concurrency = ?c, space = Space st,
                 postStart = PostStart st, preStop = PreStop st,
                 Sessions = replicate (nat ?c) None,
                 requestChs = replicate (nat ?c) None\<rparr>"
  from a have run: "acquire_outer env rt st ?n ?pool0 0 0 = (r, tr)"
    by (auto simp: NewClientPool_def Let_def split: sum.splits option.splits if_splits)
  from acquire_outer_fail_or_panic [OF run] a
  show "r = Returned (Inl e) \<or> r = Panicked" by simp
next
  fix r tr e
  assume a: "NewClientPool env rt st = (r, tr) \<and> GetSession_call (Some e) \<in> set tr"
    and small: "Concurrency st * int (length (Split (Address st) CHR '','')) < 2 ^ 63"
  let ?addrs = "Split (Address st) CHR '',''"
  let ?n = "length ?addrs"
  let ?c = "int64_wrap (Concurrency st * int ?n)"
  let ?pool0 = "\<lparr>retry = Retry st, concurrency = ?c, space = Space st,
                 postStart = PostStart st, preStop = PreStop st,
                 Sessions = replicate (nat ?c) None,
                 requestChs = replicate (nat ?c) None\<rparr>"
  from a have c0: "0 \<le> ?c" and run: "acquire_outer env rt st ?n ?pool0 0 0 = (r, tr)"
    by (auto simp: NewClientPool_def Let_def split: sum.splits option.splits if_splits)
  have total: "0 + nat (int ?n - 0) * nat (Concurrency st) \<le> length (Sessions ?pool0)"
  proof (cases "0 \<le> Concurrency st")
    case True
    then have "0 \<le> Concurrency st * int ?n" by simp
    with small have "?c = Concurrency st * int ?n" by (simp add: int64_wrap_id)
    then show ?thesis using True by (simp add: nat_mult_distrib mult.commute)
  next
    case False
    then show ?thesis by simp
  qed
  from acquire_outer_fail [OF run _ total] a show "r = Returned (Inl e)" by simp
qed

text \<open>
  An entry without a port, an entry whose port is not a number, and a cluster that
  refuses the second login.
\<close>

theorem NewClientPool_error_returns_no_pool_witness:
  "NewClientPool cluster_up runtime_linux (settings2\<lparr>Address := ''h1:9669,h2''\<rparr>) =
     (Returned (Inl (Errorf_invalid_address ''h2'')), [])
   \<and> NewClientPool cluster_up runtime_linux (settings2\<lparr>Address := ''h1:9669,h2:96x9''\<rparr>) =
     (Returned (Inl (NumError ''96x9'')), [])
   \<and> NewClientPool cluster_auth_fails runtime_linux settings2 =
     (Returned (Inl (LibError ''bad password'')),
      [GetSession_call None, GetSession_call (Some (LibError ''bad password''))])"
proof -
  have dg: "digits_value ''9669'' 0 = Some 9669" "digits_value ''96x9'' 0 = None"
    by (simp_all add: digit_of_def)
  have at: "Atoi ''9669'' = Some 9669" "Atoi ''96x9'' = None"
    by (simp_all add: Atoi_def dg Let_def del: digits_value.simps)
  have m1: "list_ex malformed_address
      (Split (Address (settings2\<lparr>Address := ''h1:9669,h2''\<rparr>)) CHR '','')"
    by (simp add: malformed_address_def)
  have m2: "list_ex malformed_address
      (Split (Address (settings2\<lparr>Address := ''h1:9669,h2:96x9''\<rparr>)) CHR '','')"
    by (simp add: malformed_address_def at)
  have r1: "NewClientPool cluster_up runtime_linux (settings2\<lparr>Address := ''h1:9669,h2''\<rparr>) =
     (Returned (Inl (Errorf_invalid_address ''h2'')), [])"
    using NewClientPool_error_returns_no_pool
      [of "settings2\<lparr>Address := ''h1:9669,h2''\<rparr>" cluster_up runtime_linux] m1
    by (simp add: NewClientPool_def settings2_def at Let_def)
  have r2: "NewClientPool cluster_up runtime_linux (settings2\<lparr>Address := ''h1:9669,h2:96x9''\<rparr>) =
     (Returned (Inl (NumError ''96x9'')), [])"
    using NewClientPool_error_returns_no_pool
      [of "settings2\<lparr>Address := ''h1:9669,h2:96x9''\<rparr>" cluster_up runtime_linux] m2
    by (simp add: NewClientPool_def settings2_def at Let_def)
  obtain r tr where run: "NewClientPool cluster_auth_fails runtime_linux settings2 = (r, tr)"
    by (cases "NewClientPool cluster_auth_fails runtime_linux settings2")
  have tr: "tr = [GetSession_call None, GetSession_call (Some (LibError ''bad password''))]"
    using run
    by (simp add: NewClientPool_def settings2_def cluster_auth_fails_def runtime_linux_def at
        Let_def int64_wrap_def acquire_outer.simps acquire_inner.simps numeral_2_eq_2
        split: prod.splits)
  have small: "Concurrency settings2 * int (length (Split (Address settings2) CHR '','')) < 2 ^ 63"
    by (simp add: settings2_def)
  from NewClientPool_error_returns_no_pool [of settings2 cluster_auth_fails runtime_linux]
    run tr small
  have "r = Returned (Inl (LibError ''bad password''))" by simp
  with run tr r1 r2 show ?thesis by simp
qed

text \<open>
  C7 as stated fails: with a per-endpoint concurrency of \<open>2^62\<close> and four addresses
  the product wraps to 0 and both slices are empty. The first \<^verbatim>\<open>GetSession\<close> call
  fails, and the store of its result into \<^verbatim>\<open>pool.Sessions[0]\<close> panics before the
  error is looked at: no error is returned.
\<close>

theorem NewClientPool_refused_login_counterexample:
  "NewClientPool cluster_refuses runtime_linux settings_overflow =
     (Panicked, [GetSession_call (Some (LibError ''bad password''))])
   \<and> Concurrency settings_overflow = 2 ^ 62
   \<and> length (Split (Address settings_overflow) CHR '','') = 4"
proof -
  have dg: "digits_value ''9669'' 0 = Some 9669"
    by (simp add: digit_of_def)
  have at: "Atoi ''9669'' = Some 9669"
    by (simp add: Atoi_def dg Let_def del: digits_value.simps)
  show ?thesis
    by (simp add: NewClientPool_def settings_overflow_def settings2_def cluster_refuses_def
        runtime_linux_def at Let_def int64_wrap_def acquire_outer.simps acquire_inner.simps)
qed

end
